theory Spec2Isabelle
  imports Complex_Main "HOL-Library.Multiset"
begin

section \<open>Numbers as text\<close>

text \<open>
  Decimal text of a whole number, as JavaScript's number-to-string conversion (in template
  literals and \<^verbatim>\<open>Array.prototype.join\<close>) writes integers of magnitude below 1e21.
\<close>

definition digit_char :: "nat \<Rightarrow> char" where
  "digit_char d = ''0123456789'' ! (d mod 10)"

function show_nat :: "nat \<Rightarrow> string" where
  "show_nat n = (if n < 10 then [digit_char n] else show_nat (n div 10) @ [digit_char (n mod 10)])"
  by pat_completeness auto
termination
  by (relation "measure (\<lambda>n. n)") auto

declare show_nat.simps [simp del]

definition show_int :: "int \<Rightarrow> string" where
  "show_int i = (if i < 0 then ''-'' @ show_nat (nat (- i)) else show_nat (nat i))"

text \<open>A number-to-string conversion for whole-number values, used to run the examples.\<close>

definition whole_number_str :: "real \<Rightarrow> string" where
  "whole_number_str x = show_int \<lfloor>x\<rfloor>"

section \<open>Demographics page: plain-English statistical conclusions\<close>

text \<open>
  The cross-tabulation record of \<^verbatim>\<open>lib/api.ts\<close> (interface CrossTabulation). JavaScript
  numbers are read as real numbers.
\<close>

record CrossTabulation =
  yes_yes :: real
  yes_no :: real
  no_yes :: real
  no_no :: real
  yes_yes_percent :: real
  yes_no_percent :: real
  no_yes_percent :: real
  no_no_percent :: real
  correlation_coefficient :: real
  chi_square :: real
  p_value :: real

text \<open>One entry pushed onto \<^verbatim>\<open>conclusions\<close>: the object literal with type, text and detail.\<close>

record conclusion =
  ctype :: string
  ctext :: string
  detail :: string

text \<open>\<^verbatim>\<open>x || 0\<close> on a number: a falsy number (zero) is replaced by 0.\<close>

definition or_zero :: "real \<Rightarrow> real" where
  "or_zero x = (if x = 0 then 0 else x)"

text \<open>
  The three blocks of \<^verbatim>\<open>getStatConclusion\<close> (\<^verbatim>\<open>app/demographics/page.tsx\<close>), each
  pushing onto \<^verbatim>\<open>conclusions\<close>: the correlation interpretation, the statistical
  significance, and the practical insight. The parameter \<open>num_str\<close> is the number-to-string
  conversion of the template literal in the practical insight.
\<close>

definition correlation_interpretation :: "real \<Rightarrow> conclusion" where
  "correlation_interpretation coefficient =
     (if coefficient > 0.7 then
        \<lparr>ctype = ''strong'',
          ctext = ''There is a STRONG positive correlation between Q1 and Q2 responses.'',
          detail = ''Students who oppose one policy very likely oppose the other as well.''\<rparr>
      else if coefficient > 0.4 then
        \<lparr>ctype = ''moderate'',
          ctext = ''There is a MODERATE positive correlation between Q1 and Q2 responses.'',
          detail = ''Students tend to have similar opinions on both policies.''\<rparr>
      else if coefficient > 0.2 then
        \<lparr>ctype = ''weak'',
          ctext = ''There is a WEAK positive correlation between Q1 and Q2 responses.'',
          detail = ''There is some relationship, but opinions on the two questions vary.''\<rparr>
      else
        \<lparr>ctype = ''none'',
          ctext = ''There is NO significant correlation between Q1 and Q2 responses.'',
          detail = ''Students'' @ [CHR 0x27] @ '' opinions on the two policies are largely independent.''\<rparr>)"

definition statistical_significance :: "real \<Rightarrow> conclusion" where
  "statistical_significance p =
     (if p < 0.001 then
        \<lparr>ctype = ''significant'',
          ctext = ''This relationship is HIGHLY statistically significant (p < 0.001).'',
          detail = ''We can be very confident this pattern is real and not due to chance.''\<rparr>
      else if p < 0.05 then
        \<lparr>ctype = ''significant'',
          ctext = ''This relationship is statistically significant (p < 0.05).'',
          detail = ''The observed pattern is unlikely to be due to random chance.''\<rparr>
      else
        \<lparr>ctype = ''not_significant'',
          ctext = ''This relationship is NOT statistically significant.'',
          detail = ''The observed pattern could be due to random chance.''\<rparr>)"

definition practical_insight :: "(real \<Rightarrow> string) \<Rightarrow> CrossTabulation \<Rightarrow> conclusion list" where
  "practical_insight num_str crossTab =
     (let noNoPercent = or_zero (no_no_percent crossTab);
          yesYesPercent = or_zero (yes_yes_percent crossTab)
      in if noNoPercent > 50 then
           [\<lparr>ctype = ''insight'',
             ctext = num_str noNoPercent @ ''% of students oppose BOTH policies.'',
             detail = ''The majority of respondents are against both the parent notification and monitoring systems.''\<rparr>]
         else [])"

text \<open>
  \<^verbatim>\<open>getStatConclusion\<close>. The page's query result \<^verbatim>\<open>crossTab\<close> is the argument (\<open>None\<close>
  while it is not loaded); the result is \<open>None\<close> for the early \<^verbatim>\<open>return null\<close>, and
  otherwise the list \<^verbatim>\<open>conclusions\<close> after the three blocks have pushed onto it.
\<close>

definition getStatConclusion ::
  "(real \<Rightarrow> string) \<Rightarrow> CrossTabulation option \<Rightarrow> conclusion list option" where
  "getStatConclusion num_str crossTab =
     (case crossTab of
        None \<Rightarrow> None
      | Some ct \<Rightarrow>
          Some ([] @ [correlation_interpretation (correlation_coefficient ct)]
                   @ [statistical_significance (p_value ct)]
                   @ practical_insight num_str ct))"

text \<open>An example cross-tabulation, varying in the two statistics the conclusions read.\<close>

definition crossTab_example :: "real \<Rightarrow> real \<Rightarrow> CrossTabulation" where
  "crossTab_example r p =
     \<lparr>yes_yes = 30, yes_no = 20, no_yes = 10, no_no = 40,
      yes_yes_percent = 30, yes_no_percent = 20, no_yes_percent = 10, no_no_percent = 40,
      correlation_coefficient = r, chi_square = 12, p_value = p\<rparr>"

section \<open>Comparison page: colour of the p-value\<close>

text \<open>\<^verbatim>\<open>getSignificanceColor\<close> of \<^verbatim>\<open>app/compare/page.tsx\<close>.\<close>

definition getSignificanceColor :: "bool \<Rightarrow> real \<Rightarrow> string" where
  "getSignificanceColor significant pValue =
     (if pValue < 0.01 then ''text-emerald-400''
      else if significant then ''text-blue-400''
      else ''text-white/40'')"

section \<open>JavaScript numbers\<close>

text \<open>
  A JavaScript number is a double-precision floating-point number: a finite number, an
  infinity, or NaN (the sign of zero is not modelled). An arithmetic operation on finite
  operands gives the double nearest to the exact result, ties going to the even significand.
\<close>

datatype js_number = Finite real | PosInfinity | NegInfinity | NaN

text \<open>The nearest integer, a tie going to the even one.\<close>

definition round_half_even :: "real \<Rightarrow> int" where
  "round_half_even y =
     (let f = \<lfloor>y\<rfloor>; r = y - of_int f
      in if r < 1 / 2 then f else if r > 1 / 2 then f + 1 else if even f then f else f + 1)"

text \<open>
  The binary exponent of a nonzero number, and the exponent of the spacing of the doubles
  around it: 52 below the binary exponent, which is not taken below -1022 (subnormal numbers).
\<close>

definition binade :: "real \<Rightarrow> int" where
  "binade x = \<lfloor>log 2 \<bar>x\<bar>\<rfloor>"

definition ulp_exponent :: "real \<Rightarrow> int" where
  "ulp_exponent x = max (binade x) (- 1022) - 52"

text \<open>Rounding to the nearest multiple of the spacing, and overflow to an infinity.\<close>

definition round_to_double :: "real \<Rightarrow> real" where
  "round_to_double x =
     (if x = 0 then 0
      else of_int (round_half_even (x / 2 powi ulp_exponent x)) * 2 powi ulp_exponent x)"

definition fl :: "real \<Rightarrow> js_number" where
  "fl x =
     (let r = round_to_double x
      in if \<bar>r\<bar> \<ge> 2 powi 1024 then (if r > 0 then PosInfinity else NegInfinity)
         else Finite r)"

text \<open>The operators \<^verbatim>\<open>+\<close>, unary and binary \<^verbatim>\<open>-\<close>, \<^verbatim>\<open>*\<close> and \<^verbatim>\<open>/\<close> on numbers.\<close>

fun js_plus :: "js_number \<Rightarrow> js_number \<Rightarrow> js_number" where
  "js_plus (Finite a) (Finite b) = fl (a + b)"
| "js_plus NaN y = NaN"
| "js_plus x NaN = NaN"
| "js_plus PosInfinity NegInfinity = NaN"
| "js_plus NegInfinity PosInfinity = NaN"
| "js_plus PosInfinity y = PosInfinity"
| "js_plus NegInfinity y = NegInfinity"
| "js_plus (Finite a) y = y"

fun js_negate :: "js_number \<Rightarrow> js_number" where
  "js_negate (Finite a) = Finite (- a)"
| "js_negate PosInfinity = NegInfinity"
| "js_negate NegInfinity = PosInfinity"
| "js_negate NaN = NaN"

definition js_minus :: "js_number \<Rightarrow> js_number \<Rightarrow> js_number" where
  "js_minus x y = js_plus x (js_negate y)"

text \<open>The sign of a number that is not NaN: whether it is below zero.\<close>

fun js_negative :: "js_number \<Rightarrow> bool" where
  "js_negative (Finite a) = (a < 0)"
| "js_negative NegInfinity = True"
| "js_negative PosInfinity = False"
| "js_negative NaN = False"

definition js_infinity :: "bool \<Rightarrow> js_number" where
  "js_infinity negative = (if negative then NegInfinity else PosInfinity)"

fun js_times :: "js_number \<Rightarrow> js_number \<Rightarrow> js_number" where
  "js_times (Finite a) (Finite b) = fl (a * b)"
| "js_times NaN y = NaN"
| "js_times x NaN = NaN"
| "js_times (Finite a) y = (if a = 0 then NaN else js_infinity ((a < 0) \<noteq> js_negative y))"
| "js_times x (Finite b) = (if b = 0 then NaN else js_infinity (js_negative x \<noteq> (b < 0)))"
| "js_times x y = js_infinity (js_negative x \<noteq> js_negative y)"

fun js_divide :: "js_number \<Rightarrow> js_number \<Rightarrow> js_number" where
  "js_divide (Finite a) (Finite b) =
     (if b \<noteq> 0 then fl (a / b)
      else if a = 0 then NaN
      else js_infinity (a < 0))"
| "js_divide NaN y = NaN"
| "js_divide x NaN = NaN"
| "js_divide (Finite a) y = Finite 0"
| "js_divide x (Finite b) = js_infinity (js_negative x \<noteq> (b < 0))"
| "js_divide x y = NaN"

text \<open>\<^verbatim>\<open>x || y\<close> on numbers: zero and NaN are falsy.\<close>

definition js_or :: "js_number \<Rightarrow> js_number \<Rightarrow> js_number" where
  "js_or x y = (if x = Finite 0 \<or> x = NaN then y else x)"

text \<open>\<^verbatim>\<open>Math.round\<close>: the nearest integer, halves rounded up.\<close>

fun math_round :: "js_number \<Rightarrow> js_number" where
  "math_round (Finite a) = Finite (of_int \<lfloor>a + 1 / 2\<rfloor>)"
| "math_round x = x"

section \<open>Quality page: the quality distribution\<close>






text \<open>
  The \<^verbatim>\<open>percent\<close> of a chart entry is either the number 0 or the text that
  \<^verbatim>\<open>toFixed(1)\<close> returns.
\<close>

datatype percent_value = PercentNumber real | PercentText string

record quality_item =
  label :: string
  "value" :: nat
  color :: string
  percent :: percent_value










section \<open>Comparison page: selecting two groups\<close>

datatype group_type = Course | Year

text \<open>The answer of \<^verbatim>\<open>getAvailableGroups\<close>: the course values and the year values.\<close>

record AvailableGroups =
  course_values :: "string list"
  year_values :: "string list"

text \<open>
  The state of \<^verbatim>\<open>ComparePage\<close> (\<^verbatim>\<open>app/compare/page.tsx\<close>): its four \<^verbatim>\<open>useState\<close>
  cells and the data of the available-groups query (\<open>None\<close> until it has loaded).
\<close>

record ComparePage =
  groupType :: group_type
  groupA :: string
  groupB :: string
  shouldCompare :: bool
  availableGroups :: "AvailableGroups option"

definition ComparePage_initial :: ComparePage where
  "ComparePage_initial =
     \<lparr>groupType = Course, groupA = [], groupB = [], shouldCompare = False,
      availableGroups = None\<rparr>"

definition group_options :: "ComparePage \<Rightarrow> string list" where
  "group_options s =
     (case availableGroups s of
        None \<Rightarrow> []
      | Some ag \<Rightarrow> (if groupType s = Course then course_values ag else year_values ag))"

text \<open>The effect that sets the initial selections; it runs when its dependencies change.\<close>

definition set_initial_selections :: "ComparePage \<Rightarrow> ComparePage" where
  "set_initial_selections s =
     (case availableGroups s of
        None \<Rightarrow> s
      | Some ag \<Rightarrow>
          let options = (if groupType s = Course then course_values ag else year_values ag)
          in if length options \<ge> 2 then s\<lparr>groupA := options ! 0, groupB := options ! 1\<rparr> else s)"

definition handleCompare :: "ComparePage \<Rightarrow> ComparePage" where
  "handleCompare s =
     (if groupA s \<noteq> [] \<and> groupB s \<noteq> [] \<and> groupA s \<noteq> groupB s
      then s\<lparr>shouldCompare := True\<rparr> else s)"

definition swapGroups :: "ComparePage \<Rightarrow> ComparePage" where
  "swapGroups s = (let temp = groupA s in s\<lparr>groupA := groupB s, groupB := temp\<rparr>)"

text \<open>The \<^verbatim>\<open>disabled\<close> attribute of the Compare button.\<close>

definition compare_button_disabled :: "ComparePage \<Rightarrow> bool" where
  "compare_button_disabled s = (groupA s = [] \<or> groupB s = [] \<or> groupA s = groupB s)"

text \<open>The \<^verbatim>\<open>enabled\<close> option of the comparison query.\<close>

definition comparison_enabled :: "ComparePage \<Rightarrow> bool" where
  "comparison_enabled s =
     (shouldCompare s \<and> groupA s \<noteq> [] \<and> groupB s \<noteq> [] \<and> groupA s \<noteq> groupB s)"

definition group_type_str :: "group_type \<Rightarrow> string" where
  "group_type_str t = (case t of Course \<Rightarrow> ''course'' | Year \<Rightarrow> ''year'')"

text \<open>
  The call \<^verbatim>\<open>compareGroups(`${groupType}:${groupA}`, `${groupType}:${groupB}`)\<close> that the
  query issues while it is enabled; \<open>None\<close> when no request is issued.
\<close>

definition compareGroups_request :: "ComparePage \<Rightarrow> (string \<times> string) option" where
  "compareGroups_request s =
     (if comparison_enabled s
      then Some (group_type_str (groupType s) @ '':'' @ groupA s,
                 group_type_str (groupType s) @ '':'' @ groupB s)
      else None)"

text \<open>What the user and the network can do to the page.\<close>

datatype compare_event =
    GroupsLoaded AvailableGroups
  | ClickByCourse
  | ClickByYear
  | SelectGroupA string
  | SelectGroupB string
  | ClickSwap
  | ClickCompare

fun compare_step :: "compare_event \<Rightarrow> ComparePage \<Rightarrow> ComparePage" where
  "compare_step (GroupsLoaded ag) s =
     (if availableGroups s = Some ag then s
      else set_initial_selections (s\<lparr>availableGroups := Some ag\<rparr>))"
| "compare_step ClickByCourse s =
     (let s' = s\<lparr>groupType := Course, shouldCompare := False\<rparr>
      in if groupType s = Course then s' else set_initial_selections s')"
| "compare_step ClickByYear s =
     (let s' = s\<lparr>groupType := Year, shouldCompare := False\<rparr>
      in if groupType s = Year then s' else set_initial_selections s')"
| "compare_step (SelectGroupA v) s = s\<lparr>groupA := v, shouldCompare := False\<rparr>"
| "compare_step (SelectGroupB v) s = s\<lparr>groupB := v, shouldCompare := False\<rparr>"
| "compare_step ClickSwap s = swapGroups s"
| "compare_step ClickCompare s = (if compare_button_disabled s then s else handleCompare s)"

fun compare_run :: "compare_event list \<Rightarrow> ComparePage \<Rightarrow> ComparePage" where
  "compare_run [] s = s"
| "compare_run (e # es) s = compare_run es (compare_step e s)"

text \<open>An example answer of the available-groups request.\<close>

definition groups_example :: AvailableGroups where
  "groups_example =
     \<lparr>course_values = [''BTech'', ''MTech'', ''PhD''], year_values = [''1st'', ''2nd'']\<rparr>"

section \<open>Explorer page: pagination and CSV export\<close>

text \<open>The interface \<^verbatim>\<open>ResponseDetail\<close> of \<^verbatim>\<open>app/explorer/page.tsx\<close>.\<close>

record quality_detail =
  score :: int
  flags :: "string list"
  is_valid :: bool

record concerns_detail =
  primary_concern :: "string option"
  secondary_concerns :: "string list"

record ResponseDetail =
  response_id :: int
  timestamp :: string
  name :: string
  roll_no :: string
  course :: string
  year :: string
  q1_parent_notification :: string
  q2_monitoring :: "string option"
  comments :: string
  quality :: "quality_detail option"
  concerns :: "concerns_detail option"

text \<open>The interface \<^verbatim>\<open>SurveyResponseList\<close> of \<^verbatim>\<open>lib/api.ts\<close>.\<close>

record SurveyResponseList =
  total :: nat
  valid_count :: nat
  flagged_count :: nat
  responses :: "ResponseDetail list"

text \<open>
  The state of \<^verbatim>\<open>ExplorerPage\<close> that pagination and export read: the search text, the
  two filter selections, the page number, and the data of the responses query (\<open>None\<close>
  while it has none).
\<close>

record ExplorerPage =
  searchQuery :: string
  selectedCourses :: "string list"
  selectedYears :: "string list"
  page :: int
  responses_data :: "SurveyResponseList option"

definition pageSize :: nat where
  "pageSize = 20"

definition ExplorerPage_initial :: ExplorerPage where
  "ExplorerPage_initial =
     \<lparr>searchQuery = [], selectedCourses = [], selectedYears = [], page = 1,
      responses_data = None\<rparr>"

text \<open>\<^verbatim>\<open>responses ? Math.ceil(responses.total / pageSize) : 0\<close>\<close>

definition totalPages :: "ExplorerPage \<Rightarrow> int" where
  "totalPages s =
     (case responses_data s of
        None \<Rightarrow> 0
      | Some r \<Rightarrow> \<lceil>real (total r) / real pageSize\<rceil>)"

definition toggle :: "string \<Rightarrow> string list \<Rightarrow> string list" where
  "toggle x prev = (if x \<in> set prev then filter (\<lambda>c. c \<noteq> x) prev else prev @ [x])"

definition toggleCourse :: "string \<Rightarrow> ExplorerPage \<Rightarrow> ExplorerPage" where
  "toggleCourse c s = s\<lparr>selectedCourses := toggle c (selectedCourses s), page := 1\<rparr>"

definition toggleYear :: "string \<Rightarrow> ExplorerPage \<Rightarrow> ExplorerPage" where
  "toggleYear y s = s\<lparr>selectedYears := toggle y (selectedYears s), page := 1\<rparr>"

text \<open>The \<^verbatim>\<open>onChange\<close> handler of the search input.\<close>

definition search_changed :: "string \<Rightarrow> ExplorerPage \<Rightarrow> ExplorerPage" where
  "search_changed v s = s\<lparr>searchQuery := v, page := 1\<rparr>"

text \<open>The Clear Filters button beside the result count.\<close>

definition clear_filters :: "ExplorerPage \<Rightarrow> ExplorerPage" where
  "clear_filters s = s\<lparr>selectedCourses := [], selectedYears := [], searchQuery := [], page := 1\<rparr>"

text \<open>The Clear Filters action of the empty state shown when a page has no responses.\<close>

definition empty_state_clear_filters :: "ExplorerPage \<Rightarrow> ExplorerPage" where
  "empty_state_clear_filters s = s\<lparr>selectedCourses := [], selectedYears := [], searchQuery := []\<rparr>"

text \<open>The handlers of the Previous and Next buttons.\<close>

definition previous_page :: "ExplorerPage \<Rightarrow> ExplorerPage" where
  "previous_page s = s\<lparr>page := max 1 (page s - 1)\<rparr>"

definition next_page :: "ExplorerPage \<Rightarrow> ExplorerPage" where
  "next_page s = s\<lparr>page := min (totalPages s) (page s + 1)\<rparr>"

text \<open>Which controls are rendered and enabled in a state.\<close>

definition pagination_shown :: "ExplorerPage \<Rightarrow> bool" where
  "pagination_shown s = (totalPages s > 1)"

definition clear_filters_shown :: "ExplorerPage \<Rightarrow> bool" where
  "clear_filters_shown s = (selectedCourses s \<noteq> [] \<or> selectedYears s \<noteq> [] \<or> searchQuery s \<noteq> [])"

definition empty_state_shown :: "ExplorerPage \<Rightarrow> bool" where
  "empty_state_shown s =
     (case responses_data s of None \<Rightarrow> False | Some r \<Rightarrow> responses r = [])"

datatype explorer_event =
    ResponsesLoaded "SurveyResponseList option"
  | SearchInput string
  | ToggleCourse string
  | ToggleYear string
  | ClickClearFilters
  | ClickEmptyStateClearFilters
  | ClickPrevious
  | ClickNext

fun explorer_step :: "explorer_event \<Rightarrow> ExplorerPage \<Rightarrow> ExplorerPage" where
  "explorer_step (ResponsesLoaded r) s = s\<lparr>responses_data := r\<rparr>"
| "explorer_step (SearchInput v) s = search_changed v s"
| "explorer_step (ToggleCourse c) s = toggleCourse c s"
| "explorer_step (ToggleYear y) s = toggleYear y s"
| "explorer_step ClickClearFilters s = (if clear_filters_shown s then clear_filters s else s)"
| "explorer_step ClickEmptyStateClearFilters s =
     (if empty_state_shown s then empty_state_clear_filters s else s)"
| "explorer_step ClickPrevious s =
     (if pagination_shown s \<and> page s \<noteq> 1 then previous_page s else s)"
| "explorer_step ClickNext s =
     (if pagination_shown s \<and> page s \<noteq> totalPages s then next_page s else s)"

fun explorer_run :: "explorer_event list \<Rightarrow> ExplorerPage \<Rightarrow> ExplorerPage" where
  "explorer_run [] s = s"
| "explorer_run (e # es) s = explorer_run es (explorer_step e s)"

text \<open>\<^verbatim>\<open>Array.prototype.join\<close> on an array of strings.\<close>

fun join :: "string \<Rightarrow> string list \<Rightarrow> string" where
  "join sep [] = []"
| "join sep [x] = x"
| "join sep (x # y # ys) = x @ sep @ join sep (y # ys)"

text \<open>\<^verbatim>\<open>.replace(/"/g, '""')\<close>: every double quote is replaced by two.\<close>

fun double_quotes :: "string \<Rightarrow> string" where
  "double_quotes [] = []"
| "double_quotes (c # cs) =
     (if c = CHR 0x22 then CHR 0x22 # CHR 0x22 # double_quotes cs else c # double_quotes cs)"

definition quoted :: "string \<Rightarrow> string" where
  "quoted x = [CHR 0x22] @ x @ [CHR 0x22]"

definition csv_header :: "string list" where
  "csv_header =
     [''ID'', ''Name'', ''Roll No'', ''Course'', ''Year'', ''Q1'', ''Q2'', ''Quality Score'', ''Comment'']"

text \<open>The array of one response's fields, each converted to text as \<^verbatim>\<open>join\<close> does.\<close>

definition csv_fields :: "ResponseDetail \<Rightarrow> string list" where
  "csv_fields r =
     [show_int (response_id r),
      quoted (name r),
      roll_no r,
      quoted (course r),
      year r,
      q1_parent_notification r,
      (case q2_monitoring r of None \<Rightarrow> [] | Some v \<Rightarrow> (if v = [] then [] else v)),
      show_int (case quality r of None \<Rightarrow> 0 | Some q \<Rightarrow> (if score q = 0 then 0 else score q)),
      quoted (double_quotes (if comments r = [] then [] else comments r))]"

text \<open>
  \<^verbatim>\<open>exportFilteredData\<close>: the CSV text handed to the download, \<open>None\<close> for the early return
  when no response page is loaded.
\<close>

definition exportFilteredData :: "ExplorerPage \<Rightarrow> string option" where
  "exportFilteredData s =
     (case responses_data s of
        None \<Rightarrow> None
      | Some rs \<Rightarrow>
          Some (join [CHR 0x0A]
                  (join '','' csv_header # map (\<lambda>r. join '','' (csv_fields r)) (responses rs))))"

text \<open>Every double quote of a text stands in a pair of adjacent double quotes.\<close>

fun quotes_doubled :: "string \<Rightarrow> bool" where
  "quotes_doubled [] = True"
| "quotes_doubled [c] = (c \<noteq> CHR 0x22)"
| "quotes_doubled (c # d # cs) =
     (if c = CHR 0x22 then d = CHR 0x22 \<and> quotes_doubled cs else quotes_doubled (d # cs))"

text \<open>The inverse reading of a CSV field body: a pair of double quotes stands for one.\<close>

fun undouble_quotes :: "string \<Rightarrow> string" where
  "undouble_quotes [] = []"
| "undouble_quotes [c] = [c]"
| "undouble_quotes (c # d # cs) =
     (if c = CHR 0x22 \<and> d = CHR 0x22 then CHR 0x22 # undouble_quotes cs
      else c # undouble_quotes (d # cs))"

text \<open>Example data: two responses, a loaded page, and a run that leaves a stale page number.\<close>

definition page_of :: "nat \<Rightarrow> ResponseDetail list \<Rightarrow> SurveyResponseList" where
  "page_of n rs = \<lparr>total = n, valid_count = n, flagged_count = 0, responses = rs\<rparr>"

definition response_example :: ResponseDetail where
  "response_example =
     \<lparr>response_id = 7, timestamp = ''2024-01-05 10:00:00'', name = ''A. Student'',
      roll_no = ''21CS10001'', course = ''BTech'', year = ''2nd'',
      q1_parent_notification = ''No'', q2_monitoring = None,
      comments = ''This is a '' @ [CHR 0x22] @ ''privacy'' @ [CHR 0x22] @ '' issue'',
      quality = Some \<lparr>score = 85, flags = [], is_valid = True\<rparr>, concerns = None\<rparr>"

definition response_example2 :: ResponseDetail where
  "response_example2 =
     \<lparr>response_id = 12, timestamp = ''2024-01-05 11:30:00'', name = ''B. Scholar'',
      roll_no = ''20PH40007'', course = ''PhD'', year = ''4th'',
      q1_parent_notification = ''Yes'', q2_monitoring = Some ''No'',
      comments = [],
      quality = None, concerns = None\<rparr>"

definition explorer_example :: ExplorerPage where
  "explorer_example =
     \<lparr>searchQuery = [], selectedCourses = [], selectedYears = [], page = 1,
      responses_data = Some (page_of 2 [response_example, response_example2])\<rparr>"

text \<open>
  A course filter is chosen and 45 responses match; Next is clicked twice, each page loading
  in turn (20, 20 and 5 responses); the responses of page 3 are then loaded again after the
  data has shrunk to 25 matches, so that page 3 is empty.
\<close>

definition stale_page_events :: "explorer_event list" where
  "stale_page_events =
     [ToggleCourse ''BTech'',
      ResponsesLoaded (Some (page_of 45 (replicate 20 response_example))),
      ClickNext,
      ResponsesLoaded (Some (page_of 45 (replicate 20 response_example))),
      ClickNext,
      ResponsesLoaded (Some (page_of 45 (replicate 5 response_example))),
      ResponsesLoaded (Some (page_of 25 []))]"

section \<open>Word cloud\<close>

text \<open>
  The interface \<^verbatim>\<open>WordCloudWord\<close> of the word-cloud component. Its fields \<^verbatim>\<open>count\<close>
  and \<^verbatim>\<open>size\<close> are named \<open>word_count\<close> and \<open>word_size\<close> here; counts are whole numbers
  (the frequencies of the words), which doubles hold exactly up to the magnitude 2^53, and
  \<open>count_number\<close> is the count as a JavaScript number.
\<close>

record WordCloudWord =
  word :: string
  word_count :: int
  word_size :: "real option"

definition count_number :: "'a WordCloudWord_scheme \<Rightarrow> js_number" where
  "count_number w = Finite (real_of_int (word_count w))"

text \<open>
  An entry of \<^verbatim>\<open>processedWords\<close>: the word's own fields (the spread \<^verbatim>\<open>...word\<close>) and the
  computed \<^verbatim>\<open>fontSize\<close>, \<^verbatim>\<open>color\<close> (here \<open>word_color\<close>; \<open>None\<close> for \<^verbatim>\<open>undefined\<close>) and
  \<^verbatim>\<open>opacity\<close>.
\<close>

record ProcessedWord = WordCloudWord +
  fontSize :: js_number
  word_color :: "string option"
  opacity :: js_number

text \<open>
  Arrays of words are objects with identity: a heap is the list of the arrays allocated so
  far, and a reference is an index into it. Allocation appends a new array.
\<close>

type_synonym heap = "WordCloudWord list list"

definition alloc :: "WordCloudWord list \<Rightarrow> heap \<Rightarrow> nat \<times> heap" where
  "alloc xs h = (length h, h @ [xs])"

text \<open>\<^verbatim>\<open>[...words]\<close>: a new array with the same elements.\<close>

definition spread_copy :: "nat \<Rightarrow> heap \<Rightarrow> nat \<times> heap" where
  "spread_copy a h = alloc (h ! a) h"

text \<open>The comparator \<^verbatim>\<open>(a, b) => b.count - a.count\<close>.\<close>

definition by_count_desc :: "WordCloudWord \<Rightarrow> WordCloudWord \<Rightarrow> js_number" where
  "by_count_desc a b = js_minus (count_number b) (count_number a)"

text \<open>
  \<^verbatim>\<open>Array.prototype.sort\<close> with a comparator: a stable sort, which sorts the array in
  place and returns the same reference. An element goes before the first element that the
  comparator does not put it after: the comparator's result is not greater than zero, where
  the result \<^verbatim>\<open>NaN\<close> counts as zero.
\<close>

fun not_after :: "js_number \<Rightarrow> bool" where
  "not_after (Finite v) = (v \<le> 0)"
| "not_after NegInfinity = True"
| "not_after PosInfinity = False"
| "not_after NaN = True"

fun insert_cmp :: "('a \<Rightarrow> 'a \<Rightarrow> js_number) \<Rightarrow> 'a \<Rightarrow> 'a list \<Rightarrow> 'a list" where
  "insert_cmp cmp x [] = [x]"
| "insert_cmp cmp x (y # ys) =
     (if not_after (cmp x y) then x # y # ys else y # insert_cmp cmp x ys)"

definition sort_cmp :: "('a \<Rightarrow> 'a \<Rightarrow> js_number) \<Rightarrow> 'a list \<Rightarrow> 'a list" where
  "sort_cmp cmp xs = foldr (insert_cmp cmp) xs []"

definition sort_in_place ::
  "(WordCloudWord \<Rightarrow> WordCloudWord \<Rightarrow> js_number) \<Rightarrow> nat \<Rightarrow> heap \<Rightarrow> nat \<times> heap" where
  "sort_in_place cmp a h = (a, h[a := sort_cmp cmp (h ! a)])"

text \<open>
  \<^verbatim>\<open>.slice(0, end)\<close>: a new array of the elements before the final index. The end is
  made an integer by dropping its fraction (\<^verbatim>\<open>NaN\<close> becomes 0); a negative end counts
  back from the length of the array, and the final index is kept between 0 and the length.
\<close>

definition slice_final :: "js_number \<Rightarrow> nat \<Rightarrow> nat" where
  "slice_final end_number len =
     (case end_number of
        NaN \<Rightarrow> 0
      | PosInfinity \<Rightarrow> len
      | NegInfinity \<Rightarrow> 0
      | Finite v \<Rightarrow>
          (let relative_end = (if v < 0 then \<lceil>v\<rceil> else \<lfloor>v\<rfloor>)
           in if relative_end < 0 then nat (max (int len + relative_end) 0)
              else min (nat relative_end) len))"

definition slice_from_0 :: "js_number \<Rightarrow> nat \<Rightarrow> heap \<Rightarrow> nat \<times> heap" where
  "slice_from_0 end_number a h = alloc (take (slice_final end_number (length (h ! a))) (h ! a)) h"

text \<open>
  The callback of \<^verbatim>\<open>sorted.map((word, index) => ...)\<close>; \<^verbatim>\<open>range\<close> is named
  \<open>count_range\<close>. The literals 0.6 and 0.4 are the doubles nearest to them.
\<close>

definition process_word ::
  "js_number \<Rightarrow> js_number \<Rightarrow> js_number \<Rightarrow> js_number \<Rightarrow> string list
     \<Rightarrow> nat \<times> WordCloudWord \<Rightarrow> ProcessedWord" where
  "process_word minCount count_range minFontSize maxFontSize colors iw =
     (case iw of (index, w) \<Rightarrow>
        let normalized = js_divide (js_minus (count_number w) minCount) count_range;
            fontSize = js_plus minFontSize
                         (js_times normalized (js_minus maxFontSize minFontSize));
            color = (if colors = [] then None else Some (colors ! (index mod length colors)))
        in \<lparr>word = word w, word_count = word_count w, word_size = word_size w,
            fontSize = math_round fontSize, word_color = color,
            opacity = js_plus (fl (6 / 10)) (js_times normalized (fl (4 / 10)))\<rparr>)"

text \<open>
  \<^verbatim>\<open>processedWords\<close> of \<^verbatim>\<open>WordCloud\<close>: the argument \<open>words\<close> is the reference of the input
  array (\<open>None\<close> for a missing one); \<open>maxWords\<close>, \<open>minFontSize\<close> and \<open>maxFontSize\<close> are the
  numbers of the properties (50, 12 and 36 when omitted). The result is the list of
  processed words and the heap after the call.
\<close>

definition processedWords ::
  "nat option \<Rightarrow> js_number \<Rightarrow> js_number \<Rightarrow> js_number \<Rightarrow> string list \<Rightarrow> heap
     \<Rightarrow> ProcessedWord list \<times> heap" where
  "processedWords words maxWords minFontSize maxFontSize colors h =
     (case words of
        None \<Rightarrow> ([], h)
      | Some a \<Rightarrow>
          if length (h ! a) = 0 then ([], h)
          else
            (case spread_copy a h of (copy_ref, h1) \<Rightarrow>
             case sort_in_place by_count_desc copy_ref h1 of (s_ref, h2) \<Rightarrow>
             case slice_from_0 maxWords s_ref h2 of (sorted_ref, h3) \<Rightarrow>
               if length (h3 ! sorted_ref) = 0 then ([], h3)
               else
                 let maxCount = count_number ((h3 ! sorted_ref) ! 0);
                     minCount = count_number ((h3 ! sorted_ref) ! (length (h3 ! sorted_ref) - 1));
                     count_range = js_or (js_minus maxCount minCount) (Finite 1)
                 in (map (process_word minCount count_range minFontSize maxFontSize colors)
                       (zip [0..<length (h3 ! sorted_ref)] (h3 ! sorted_ref)),
                     h3)))"

text \<open>Non-increasing order of count.\<close>

abbreviation count_desc :: "'a WordCloudWord_scheme \<Rightarrow> 'a WordCloudWord_scheme \<Rightarrow> bool" where
  "count_desc x y \<equiv> word_count x \<ge> word_count y"

text \<open>\<^verbatim>\<open>topWords\<close> of \<^verbatim>\<open>WordCloudCompact\<close> (\<open>maxWords\<close> is 15 when omitted).\<close>

definition topWords :: "nat \<Rightarrow> js_number \<Rightarrow> heap \<Rightarrow> WordCloudWord list \<times> heap" where
  "topWords words maxWords h =
     (case spread_copy words h of (copy_ref, h1) \<Rightarrow>
      case sort_in_place by_count_desc copy_ref h1 of (s_ref, h2) \<Rightarrow>
      case slice_from_0 maxWords s_ref h2 of (top_ref, h3) \<Rightarrow> (h3 ! top_ref, h3))"

text \<open>Example word lists and the component's default colours.\<close>

definition words_example :: "WordCloudWord list" where
  "words_example =
     [\<lparr>word = ''privacy'', word_count = 16, word_size = None\<rparr>,
      \<lparr>word = ''trust'', word_count = 1, word_size = None\<rparr>,
      \<lparr>word = ''parents'', word_count = 27, word_size = None\<rparr>,
      \<lparr>word = ''entry'', word_count = 16, word_size = None\<rparr>,
      \<lparr>word = ''late'', word_count = 0, word_size = None\<rparr>]"

definition equal_counts_example :: "WordCloudWord list" where
  "equal_counts_example =
     [\<lparr>word = ''safety'', word_count = 5, word_size = None\<rparr>,
      \<lparr>word = ''consent'', word_count = 5, word_size = None\<rparr>]"

definition default_colors :: "string list" where
  "default_colors = [''#3b82f6'', ''#8b5cf6'', ''#06b6d4'', ''#22c55e'', ''#f59e0b'', ''#ec4899'']"

section \<open>Analytics core, modelled from the specification\<close>

subsection \<open>Statistics engine\<close>

text \<open>
  Modelled from the spec: the Python backend (the statistics services behind the analytics
  endpoints) is not among the source files; the engine's functions are written here from
  section 4.4 of the specification. A division raises on a zero divisor, as Python's does,
  so that a function that never raises is one whose result is never \<open>Inl\<close>.
\<close>

datatype engine_error = ZeroDivisionError

definition checked_div :: "real \<Rightarrow> real \<Rightarrow> engine_error + real" where
  "checked_div a b = (if b = 0 then Inl ZeroDivisionError else Inr (a / b))"

text \<open>
  Sequencing of computations that may raise.
\<close>

definition and_then :: "'e + 'a \<Rightarrow> ('a \<Rightarrow> 'e + 'b) \<Rightarrow> 'e + 'b" where
  "and_then m f = (case m of Inl e \<Rightarrow> Inl e | Inr x \<Rightarrow> f x)"

text \<open>
  Modelled from the spec: the result of \<^verbatim>\<open>percentage_with_ci\<close> (section 3, StatSummary).
\<close>

record PercentageWithCI =
  percentage :: real
  margin_of_error :: real
  ci_lower :: real
  ci_upper :: real
  sample_size :: nat
  confidence_level :: real

text \<open>
  Modelled from the spec: the bounds of the interval are clamped to [0, 100].
\<close>

definition clamp_percent :: "real \<Rightarrow> real" where
  "clamp_percent x = max 0 (min 100 x)"

text \<open>
  Modelled from the spec: \<^verbatim>\<open>percentage_with_ci(count, total)\<close>, absent from the sources. The
  percentage is 100 * count / total, the margin of error is z * sqrt(p (1 - p) / n) * 100
  with z = 1.96, and a zero total gives the percentage 0 with the margin of error 100.
\<close>

definition percentage_with_ci :: "nat \<Rightarrow> nat \<Rightarrow> engine_error + PercentageWithCI" where
  "percentage_with_ci count_n total_n =
     (if total_n = 0 then
        Inr \<lparr>percentage = 0, margin_of_error = 100,
             ci_lower = clamp_percent (0 - 100), ci_upper = clamp_percent (0 + 100),
             sample_size = total_n, confidence_level = 0.95\<rparr>
      else
        and_then (checked_div (real count_n) (real total_n)) (\<lambda>p.
        and_then (checked_div (p * (1 - p)) (real total_n)) (\<lambda>v.
          let pct = 100 * p;
              moe = 1.96 * sqrt v * 100
          in Inr \<lparr>percentage = pct, margin_of_error = moe,
                  ci_lower = clamp_percent (pct - moe), ci_upper = clamp_percent (pct + moe),
                  sample_size = total_n, confidence_level = 0.95\<rparr>)))"

text \<open>
  Modelled from the spec: the effect-size categories and the result of the z-test.
\<close>

datatype effect_size_category = negligible | small | medium | large

record ComparisonStatTest =
  z_statistic :: real
  test_p_value :: real
  significant :: bool
  highly_significant :: bool
  difference :: real
  effect_size :: effect_size_category
  cohens_h :: real

text \<open>
  Modelled from the spec: a proportion count / total, 0 for a zero total.
\<close>

definition proportion :: "nat \<Rightarrow> nat \<Rightarrow> engine_error + real" where
  "proportion count_n total_n =
     (if total_n = 0 then Inr 0 else checked_div (real count_n) (real total_n))"

text \<open>
  Modelled from the spec: the standard error sqrt(p (1 - p) (1 / total_a + 1 / total_b)) of
  the pooled proportion; with a zero total there is none, and it is taken as 0.
\<close>

definition standard_error :: "real \<Rightarrow> nat \<Rightarrow> nat \<Rightarrow> engine_error + real" where
  "standard_error p total_a total_b =
     (if total_a = 0 \<or> total_b = 0 then Inr 0
      else
        and_then (checked_div 1 (real total_a)) (\<lambda>inv_a.
        and_then (checked_div 1 (real total_b)) (\<lambda>inv_b.
          Inr (sqrt (p * (1 - p) * (inv_a + inv_b))))))"

text \<open>
  Modelled from the spec: the category of the magnitude of Cohen's h.
\<close>

definition effect_size_of :: "real \<Rightarrow> effect_size_category" where
  "effect_size_of h =
     (if \<bar>h\<bar> < 0.2 then negligible
      else if \<bar>h\<bar> < 0.5 then small
      else if \<bar>h\<bar> < 0.8 then medium
      else large)"

text \<open>
  Modelled from the spec: \<^verbatim>\<open>two_proportion_z_test(count_a, total_a, count_b, total_b)\<close>,
  absent from the sources. The standard normal distribution function is the parameter
  \<open>normal_cdf\<close>. z is 0 when the standard error is 0, and significance is then false.
\<close>

definition two_proportion_z_test ::
  "(real \<Rightarrow> real) \<Rightarrow> nat \<Rightarrow> nat \<Rightarrow> nat \<Rightarrow> nat \<Rightarrow> engine_error + ComparisonStatTest" where
  "two_proportion_z_test normal_cdf count_a total_a count_b total_b =
     and_then (proportion count_a total_a) (\<lambda>p_a.
     and_then (proportion count_b total_b) (\<lambda>p_b.
     and_then (proportion (count_a + count_b) (total_a + total_b)) (\<lambda>p.
     and_then (standard_error p total_a total_b) (\<lambda>se.
     and_then (if se = 0 then Inr 0 else checked_div (p_a - p_b) se) (\<lambda>z.
       let pv = 2 * (1 - normal_cdf \<bar>z\<bar>);
           h = 2 * (arcsin (sqrt p_a) - arcsin (sqrt p_b))
       in Inr \<lparr>z_statistic = z, test_p_value = pv,
               significant = (se \<noteq> 0 \<and> pv < 0.05),
               highly_significant = (se \<noteq> 0 \<and> pv < 0.01),
               difference = 100 * (p_a - p_b),
               effect_size = effect_size_of h,
               cohens_h = h\<rparr>)))))"

text \<open>
  Modelled from the spec: the result of \<^verbatim>\<open>chi_square_2x2\<close>.
\<close>

record ChiSquareResult =
  cs_chi_square :: real
  cs_p_value :: real
  cs_correlation_coefficient :: real

text \<open>
  Modelled from the spec: an expected cell count, and a cell's term of the statistic.
\<close>

definition expected_count :: "nat \<Rightarrow> nat \<Rightarrow> nat \<Rightarrow> engine_error + real" where
  "expected_count row col n = checked_div (real row * real col) (real n)"

definition cell_term :: "nat \<Rightarrow> real \<Rightarrow> real \<Rightarrow> engine_error + real" where
  "cell_term observed expected correction =
     checked_div ((\<bar>real observed - expected\<bar> - correction)\<^sup>2) expected"

text \<open>
  Modelled from the spec: \<^verbatim>\<open>chi_square_2x2(yes_yes, yes_no, no_yes, no_no)\<close>, absent from the
  sources. Yates' correction applies when an expected count is below 5; the upper tail of
  the chi-square distribution with one degree of freedom is the parameter \<open>chi2_sf\<close>; a
  zero marginal gives the statistic 0, the p-value 1 and the coefficient 0.
\<close>

definition chi_square_2x2 ::
  "(real \<Rightarrow> real) \<Rightarrow> nat \<Rightarrow> nat \<Rightarrow> nat \<Rightarrow> nat \<Rightarrow> engine_error + ChiSquareResult" where
  "chi_square_2x2 chi2_sf yy yn ny nn =
     (let row1 = yy + yn; row2 = ny + nn; col1 = yy + ny; col2 = yn + nn;
          n = row1 + row2
      in if row1 = 0 \<or> row2 = 0 \<or> col1 = 0 \<or> col2 = 0 then
           Inr \<lparr>cs_chi_square = 0, cs_p_value = 1, cs_correlation_coefficient = 0\<rparr>
         else
           and_then (expected_count row1 col1 n) (\<lambda>e11.
           and_then (expected_count row1 col2 n) (\<lambda>e12.
           and_then (expected_count row2 col1 n) (\<lambda>e21.
           and_then (expected_count row2 col2 n) (\<lambda>e22.
             let correction = (if e11 < 5 \<or> e12 < 5 \<or> e21 < 5 \<or> e22 < 5 then 1 / 2 else 0)
             in
             and_then (cell_term yy e11 correction) (\<lambda>t11.
             and_then (cell_term yn e12 correction) (\<lambda>t12.
             and_then (cell_term ny e21 correction) (\<lambda>t21.
             and_then (cell_term nn e22 correction) (\<lambda>t22.
             and_then (checked_div (real yy * real nn - real yn * real ny)
                         (sqrt (real row1 * real row2 * real col1 * real col2))) (\<lambda>phi.
               let chi = t11 + t12 + t21 + t22
               in Inr \<lparr>cs_chi_square = chi, cs_p_value = chi2_sf chi,
                       cs_correlation_coefficient = phi\<rparr>))))))))))"

text \<open>
  Modelled from the spec: \<^verbatim>\<open>significance_badge(p_value, significant)\<close>, absent from the
  sources. The label and the symbol follow the four tiers of the p-value; the level and the
  colour are presentation metadata whose values the specification does not give, and are left
  out. The function divides nothing; its result is wrapped like the others'.
\<close>

record SignificanceBadge =
  badge_label :: string
  badge_symbol :: string

definition significance_badge :: "real \<Rightarrow> bool \<Rightarrow> engine_error + SignificanceBadge" where
  "significance_badge pv flagged_significant =
     Inr (if pv < 0.001 then \<lparr>badge_label = ''highly significant'', badge_symbol = ''***''\<rparr>
          else if pv < 0.01 then \<lparr>badge_label = ''very significant'', badge_symbol = ''**''\<rparr>
          else if pv < 0.05 then \<lparr>badge_label = ''significant'', badge_symbol = ''*''\<rparr>
          else \<lparr>badge_label = ''not significant'', badge_symbol = ''ns''\<rparr>)"

text \<open>
  Modelled from the spec: \<^verbatim>\<open>sample_adequacy(sample_size, population_estimate)\<close>, absent from
  the sources. The worst-case margin of error is that of p = 0.5, 1.96 * sqrt(0.25 / n) * 100;
  the adequacy is strong below 3, adequate below 5 and weak otherwise; the smallest
  detectable difference at 80% power is (1.96 + 0.84) * sqrt(2 * 0.25 / n) * 100, the usual
  formula for two independent proportions at p = 0.5. A zero sample size gives the margin of
  error 100 (hence weak) and, likewise maximal, the detectable difference 100. The
  specification gives the population estimate no part in the three results.
\<close>

datatype adequacy_level = strong | adequate | weak

record SampleAdequacy =
  adequacy :: adequacy_level
  worst_case_moe_percent :: real
  can_detect_difference :: real

definition adequacy_of :: "real \<Rightarrow> adequacy_level" where
  "adequacy_of moe = (if moe < 3 then strong else if moe < 5 then adequate else weak)"

definition sample_adequacy :: "nat \<Rightarrow> nat \<Rightarrow> engine_error + SampleAdequacy" where
  "sample_adequacy sample_size_n population_estimate =
     (if sample_size_n = 0 then
        Inr \<lparr>adequacy = adequacy_of 100, worst_case_moe_percent = 100,
             can_detect_difference = 100\<rparr>
      else
        and_then (checked_div (0.5 * (1 - 0.5)) (real sample_size_n)) (\<lambda>v.
        and_then (checked_div (2 * 0.5 * (1 - 0.5)) (real sample_size_n)) (\<lambda>v2.
          let moe = 1.96 * sqrt v * 100;
              detectable = (1.96 + 0.84) * sqrt v2 * 100
          in Inr \<lparr>adequacy = adequacy_of moe, worst_case_moe_percent = moe,
                  can_detect_difference = detectable\<rparr>)))"

subsection \<open>Quality scorer\<close>

text \<open>
  Modelled from the spec: the quality scorer of the Python backend is not among the source
  files; it is written here from sections 3 and 4.1 of the specification. The flag
  \<^verbatim>\<open>empty\<close> is named \<open>empty_comment\<close>, and the fields of the result carry the prefix \<open>qr_\<close>.
\<close>

datatype quality_flag = too_short | keyboard_spam | all_caps | minimal | empty_comment | duplicate

record QualityResult =
  qr_score :: int
  qr_flags :: "quality_flag list"
  qr_is_valid :: bool
  needs_review :: bool

text \<open>
  Modelled from the spec: the thresholds that the specification leaves as configuration
  (minimum length, minimum length for the all-caps test, minimum word count, validity
  threshold, upper end of the borderline band).
\<close>

record scorer_config =
  min_chars :: nat
  all_caps_min_chars :: nat
  min_words :: nat
  validity_threshold :: int
  review_band_upper :: int

text \<open>
  Modelled from the spec: character classes and the number of words of a comment.
\<close>

definition is_space :: "char \<Rightarrow> bool" where
  "is_space c = (c = CHR 0x20 \<or> c = CHR 0x09 \<or> c = CHR 0x0A \<or> c = CHR 0x0D)"

definition is_upper :: "char \<Rightarrow> bool" where
  "is_upper c = (65 \<le> (of_char c :: nat) \<and> (of_char c :: nat) \<le> 90)"

definition is_lower :: "char \<Rightarrow> bool" where
  "is_lower c = (97 \<le> (of_char c :: nat) \<and> (of_char c :: nat) \<le> 122)"

fun count_words :: "bool \<Rightarrow> string \<Rightarrow> nat" where
  "count_words in_word [] = 0"
| "count_words in_word (c # cs) =
     (if is_space c then count_words False cs
      else (if in_word then 0 else 1) + count_words True cs)"

text \<open>
  Modelled from the spec: the penalties (too_short 30, keyboard_spam 50, all_caps 15,
  minimal 20; the empty flag forces the score to 0 and duplicates are flagged by a separate
  pass), the hard-fail flags, and the clamp to [0, 100].
\<close>

definition penalty :: "quality_flag \<Rightarrow> int" where
  "penalty f =
     (case f of too_short \<Rightarrow> 30 | keyboard_spam \<Rightarrow> 50 | all_caps \<Rightarrow> 15 | minimal \<Rightarrow> 20
              | empty_comment \<Rightarrow> 0 | duplicate \<Rightarrow> 0)"

definition hard_fail :: "quality_flag \<Rightarrow> bool" where
  "hard_fail f = (f = keyboard_spam \<or> f = empty_comment \<or> f = duplicate)"

definition clamp_score :: "int \<Rightarrow> int" where
  "clamp_score x = max 0 (min 100 x)"

text \<open>
  Modelled from the spec: the flags of a non-empty comment. The detector of keyboard
  patterns, which the specification describes by examples only, is the parameter
  \<open>keyboard_pattern\<close>.
\<close>

definition detect_flags :: "scorer_config \<Rightarrow> (string \<Rightarrow> bool) \<Rightarrow> string \<Rightarrow> quality_flag list" where
  "detect_flags cfg keyboard_pattern comment =
     (if length comment < min_chars cfg then [too_short] else []) @
     (if keyboard_pattern comment then [keyboard_spam] else []) @
     (if length comment > all_caps_min_chars cfg \<and> list_ex is_upper comment
         \<and> list_all (\<lambda>c. \<not> is_lower c) comment
      then [all_caps] else []) @
     (if count_words False comment < min_words cfg then [minimal] else [])"

text \<open>
  Modelled from the spec: \<^verbatim>\<open>QualityScorer.score(comment)\<close>, absent from the sources. The
  score starts at 100, the penalties of the flags are subtracted, and the result is clamped
  to [0, 100]; an empty or whitespace-only comment has the score 0.
\<close>

definition QualityScorer_score ::
  "scorer_config \<Rightarrow> (string \<Rightarrow> bool) \<Rightarrow> string \<Rightarrow> QualityResult" where
  "QualityScorer_score cfg keyboard_pattern comment =
     (if list_all is_space comment then
        \<lparr>qr_score = 0, qr_flags = [empty_comment], qr_is_valid = False, needs_review = False\<rparr>
      else
        let fs = detect_flags cfg keyboard_pattern comment;
            s = clamp_score (100 - sum_list (map penalty fs))
        in \<lparr>qr_score = s, qr_flags = fs,
            qr_is_valid = (s \<ge> validity_threshold cfg \<and> \<not> list_ex hard_fail fs),
            needs_review = ((validity_threshold cfg \<le> s \<and> s \<le> review_band_upper cfg)
                             \<or> length fs \<ge> 2)\<rparr>)"

text \<open>
  An example configuration.
\<close>

definition scorer_config_example :: scorer_config where
  "scorer_config_example =
     \<lparr>min_chars = 10, all_caps_min_chars = 5, min_words = 3, validity_threshold = 40,
      review_band_upper = 60\<rparr>"

section \<open>Results\<close>

subsection \<open>Rounding to doubles\<close>

lemma rhe_char:
  "\<exists>f. real_of_int f \<le> y \<and> y < real_of_int f + 1 \<and>
       ((y - real_of_int f < 1 / 2 \<and> round_half_even y = f) \<or>
        (y - real_of_int f > 1 / 2 \<and> round_half_even y = f + 1) \<or>
        (y - real_of_int f = 1 / 2 \<and> (round_half_even y = f \<or> round_half_even y = f + 1)))"
proof -
  define f where "f = \<lfloor>y\<rfloor>"
  have a: "real_of_int f \<le> y" "y < real_of_int f + 1" unfolding f_def by linarith+
  have r: "round_half_even y =
             (if y - of_int f < 1 / 2 then f
              else if y - of_int f > 1 / 2 then f + 1 else if even f then f else f + 1)"
    by (simp add: round_half_even_def Let_def f_def)
  consider "y - of_int f < 1 / 2" | "y - of_int f > 1 / 2" | "y - of_int f = 1 / 2"
    by linarith
  then have "(y - real_of_int f < 1 / 2 \<and> round_half_even y = f) \<or>
        (y - real_of_int f > 1 / 2 \<and> round_half_even y = f + 1) \<or>
        (y - real_of_int f = 1 / 2 \<and> (round_half_even y = f \<or> round_half_even y = f + 1))"
  proof cases
    case 1
    then show ?thesis using r by simp
  next
    case 2
    then have "\<not> y - of_int f < 1 / 2" by linarith
    with 2 show ?thesis using r by simp
  next
    case 3
    then have "\<not> y - of_int f < 1 / 2" "\<not> y - of_int f > 1 / 2" by linarith+
    with 3 show ?thesis using r by (cases "even f") simp_all
  qed
  with a show ?thesis by blast
qed

lemma rhe_upper: "real_of_int (round_half_even y) \<le> y + 1 / 2"
proof -
  obtain f where "real_of_int f \<le> y"
    and c: "(y - real_of_int f < 1 / 2 \<and> round_half_even y = f) \<or>
        (y - real_of_int f > 1 / 2 \<and> round_half_even y = f + 1) \<or>
        (y - real_of_int f = 1 / 2 \<and> (round_half_even y = f \<or> round_half_even y = f + 1))"
    and "y < real_of_int f + 1"
    using rhe_char [of y] by blast
  have s: "real_of_int (f + 1) = real_of_int f + 1" by simp
  from c show ?thesis
  proof (elim disjE conjE)
    assume "round_half_even y = f" 
    then show ?thesis using \<open>real_of_int f \<le> y\<close> by simp
  next
    assume "round_half_even y = f + 1" "1 / 2 < y - real_of_int f"
    then show ?thesis using s by linarith
  next
    assume "round_half_even y = f" 
    then show ?thesis using \<open>real_of_int f \<le> y\<close> by simp
  next
    assume "round_half_even y = f + 1" "y - real_of_int f = 1 / 2"
    then show ?thesis using s by linarith
  qed
qed

lemma rhe_lower: "y - 1 / 2 \<le> real_of_int (round_half_even y)"
proof -
  obtain f where "real_of_int f \<le> y"
    and c: "(y - real_of_int f < 1 / 2 \<and> round_half_even y = f) \<or>
        (y - real_of_int f > 1 / 2 \<and> round_half_even y = f + 1) \<or>
        (y - real_of_int f = 1 / 2 \<and> (round_half_even y = f \<or> round_half_even y = f + 1))"
    and u: "y < real_of_int f + 1"
    using rhe_char [of y] by blast
  have s: "real_of_int (f + 1) = real_of_int f + 1" by simp
  from c show ?thesis
  proof (elim disjE conjE)
    assume "round_half_even y = f" "y - real_of_int f < 1 / 2"
    then show ?thesis by linarith
  next
    assume "round_half_even y = f + 1" "1 / 2 < y - real_of_int f"
    then show ?thesis using s u by linarith
  next
    assume "round_half_even y = f" "y - real_of_int f = 1 / 2"
    then show ?thesis by linarith
  next
    assume "round_half_even y = f + 1" "y - real_of_int f = 1 / 2"
    then show ?thesis using s u by linarith
  qed
qed

lemma rhe_of_int: "round_half_even (of_int k) = k"
  by (simp add: round_half_even_def Let_def)

lemma rhe_mono:
  assumes "y \<le> z"
  shows "round_half_even y \<le> round_half_even z"
proof (cases "y = z")
  case True
  then show ?thesis by simp
next
  case False
  with assms have "y < z" by simp
  moreover have "real_of_int (round_half_even y) \<le> y + 1 / 2" by (rule rhe_upper)
  moreover have "z - 1 / 2 \<le> real_of_int (round_half_even z)" by (rule rhe_lower)
  ultimately have "real_of_int (round_half_even y) < real_of_int (round_half_even z) + 1"
    by linarith
  then have "round_half_even y < round_half_even z + 1"
    by (metis of_int_1 of_int_add of_int_less_iff)
  then show ?thesis by simp
qed

lemma rhe_minus: "round_half_even (- y) = - round_half_even y"
proof (cases "y = of_int \<lfloor>y\<rfloor>")
  case True
  then obtain k where k: "y = of_int k" by blast
  then have "- y = of_int (- k)" by simp
  then have "round_half_even (- y) = - k" by (simp only: rhe_of_int)
  moreover have "round_half_even y = k" unfolding k by (rule rhe_of_int)
  ultimately show ?thesis by simp
next
  case False
  define f where "f = \<lfloor>y\<rfloor>"
  have fl: "real_of_int f \<le> y" "y < real_of_int f + 1" unfolding f_def by linarith+
  from False have "y \<noteq> real_of_int f" by (simp add: f_def)
  with fl(1) have lt: "real_of_int f < y" by linarith
  have nf: "\<lfloor>- y\<rfloor> = - f - 1"
  proof (rule floor_unique)
    show "real_of_int (- f - 1) \<le> - y" using fl(2) by simp
    show "- y < real_of_int (- f - 1) + 1" using lt by simp
  qed
  have r: "round_half_even y =
             (if y - of_int f < 1 / 2 then f
              else if y - of_int f > 1 / 2 then f + 1 else if even f then f else f + 1)"
    by (simp add: round_half_even_def Let_def f_def)
  have r': "round_half_even (- y) =
             (if - y - of_int (- f - 1) < 1 / 2 then - f - 1
              else if - y - of_int (- f - 1) > 1 / 2 then - f - 1 + 1
              else if even (- f - 1) then - f - 1 else - f - 1 + 1)"
    by (simp only: round_half_even_def Let_def nf)
  have e: "- y - real_of_int (- f - 1) = 1 - (y - real_of_int f)" by simp
  consider "y - of_int f < 1 / 2" | "y - of_int f > 1 / 2" | "y - of_int f = 1 / 2"
    by linarith
  then show ?thesis
  proof cases
    case 1
    then have "\<not> 1 - (y - real_of_int f) < 1 / 2" "1 - (y - real_of_int f) > 1 / 2" by linarith+
    then have "round_half_even (- y) = - f - 1 + 1" unfolding r' e by simp
    moreover have "round_half_even y = f" using 1 r by simp
    ultimately show ?thesis by simp
  next
    case 2
    then have "1 - (y - real_of_int f) < 1 / 2" by linarith
    then have "round_half_even (- y) = - f - 1" unfolding r' e by simp
    moreover have "\<not> y - of_int f < 1 / 2" using 2 by linarith
    then have "round_half_even y = f + 1" using 2 r by simp
    ultimately show ?thesis by simp
  next
    case 3
    then have "\<not> 1 - (y - real_of_int f) < 1 / 2" "\<not> 1 - (y - real_of_int f) > 1 / 2" by linarith+
    then have a: "round_half_even (- y) = (if even (- f - 1) then - f - 1 else - f - 1 + 1)"
      unfolding r' e by simp
    have "\<not> y - of_int f < 1 / 2" "\<not> y - of_int f > 1 / 2" using 3 by linarith+
    then have b: "round_half_even y = (if even f then f else f + 1)" using r by simp
    show ?thesis unfolding a b by (cases "even f") simp_all
  qed
qed


lemma two_powr_int: "(2::real) powr real_of_int j = 2 powi j"
  by (simp add: powr_real_of_int')

lemma binade_iff:
  assumes "x \<noteq> 0"
  shows "binade x = k \<longleftrightarrow> 2 powi k \<le> \<bar>x\<bar> \<and> \<bar>x\<bar> < 2 powi (k + 1)"
proof -
  have "0 < \<bar>x\<bar>" using assms by simp
  then have "\<lfloor>log 2 \<bar>x\<bar>\<rfloor> = k \<longleftrightarrow>
             2 powr real_of_int k \<le> \<bar>x\<bar> \<and> \<bar>x\<bar> < 2 powr (real_of_int (k + 1))"
    using floor_log_eq_powr_iff [of "\<bar>x\<bar>" 2 k] by simp
  then show ?thesis by (simp only: binade_def two_powr_int)
qed

lemma binade_bounds:
  assumes "x \<noteq> 0"
  shows "2 powi binade x \<le> \<bar>x\<bar>" and "\<bar>x\<bar> < 2 powi (binade x + 1)"
  using binade_iff [OF assms, of "binade x"] by simp_all

lemma binade_less:
  assumes "x \<noteq> 0" "\<bar>x\<bar> < 2 powi k"
  shows "binade x < k"
proof (rule ccontr)
  assume "\<not> binade x < k"
  then have "k \<le> binade x" by simp
  then have "(2::real) powi k \<le> 2 powi binade x" by (rule power_int_increasing) simp
  with binade_bounds(1) [OF assms(1)] assms(2) show False by linarith
qed

lemma binade_ge:
  assumes "x \<noteq> 0" "2 powi k \<le> \<bar>x\<bar>"
  shows "k \<le> binade x"
proof (rule ccontr)
  assume "\<not> k \<le> binade x"
  then have "binade x + 1 \<le> k" by simp
  then have "(2::real) powi (binade x + 1) \<le> 2 powi k" by (rule power_int_increasing) simp
  with binade_bounds(2) [OF assms(1)] assms(2) show False by linarith
qed

lemma binade_mono:
  assumes "x \<noteq> 0" "\<bar>x\<bar> \<le> \<bar>y\<bar>"
  shows "binade x \<le> binade y"
proof -
  have y: "y \<noteq> 0" using assms by auto
  have "2 powi binade x \<le> \<bar>y\<bar>" using binade_bounds(1) [OF assms(1)] assms(2) by linarith
  with y show ?thesis by (rule binade_ge)
qed

lemma binade_minus: "binade (- x) = binade x"
  by (simp add: binade_def)

lemma ulp_exponent_minus: "ulp_exponent (- x) = ulp_exponent x"
  by (simp add: ulp_exponent_def binade_minus)

lemma ulp_pos: "0 < (2::real) powi k"
  by simp

lemma rnd_minus: "round_to_double (- x) = - round_to_double x"
  by (simp add: round_to_double_def ulp_exponent_minus rhe_minus)

lemma rnd_nonneg:
  assumes "0 \<le> x"
  shows "0 \<le> round_to_double x"
proof (cases "x = 0")
  case True
  then show ?thesis by (simp add: round_to_double_def)
next
  case False
  have "0 \<le> x / 2 powi ulp_exponent x" using assms by simp
  then have "round_half_even 0 \<le> round_half_even (x / 2 powi ulp_exponent x)"
    by (rule rhe_mono)
  moreover have "round_half_even 0 = 0" using rhe_of_int [of 0] by simp
  ultimately have "0 \<le> real_of_int (round_half_even (x / 2 powi ulp_exponent x))" by simp
  then have "0 \<le> real_of_int (round_half_even (x / 2 powi ulp_exponent x)) * 2 powi ulp_exponent x"
    by (rule mult_nonneg_nonneg) simp
  with False show ?thesis by (simp add: round_to_double_def)
qed

lemma rnd_nonpos:
  assumes "x \<le> 0"
  shows "round_to_double x \<le> 0"
proof -
  have "0 \<le> round_to_double (- x)" using assms by (intro rnd_nonneg) simp
  then show ?thesis by (simp add: rnd_minus)
qed



lemma powi_ratio: "(2::real) powi a / 2 powi b = 2 powi (a - b)"
  by (simp add: power_int_diff)

lemma powi_prod: "(2::real) powi a * 2 powi b = 2 powi (a + b)"
  by (simp add: power_int_add)

lemma rnd_on_grid:
  assumes "x \<noteq> 0" "x / 2 powi ulp_exponent x = real_of_int n"
  shows "round_to_double x = x"
proof -
  have "round_to_double x = real_of_int n * 2 powi ulp_exponent x"
    using assms by (simp add: round_to_double_def rhe_of_int)
  also have "\<dots> = x / 2 powi ulp_exponent x * 2 powi ulp_exponent x"
    by (simp only: assms(2))
  also have "\<dots> = x" by simp
  finally show ?thesis .
qed

lemma rnd_dyadic_exact:
  assumes "x = real_of_int m * 2 powi j" "\<bar>m\<bar> < 2 ^ 53" "- 1074 \<le> j"
  shows "round_to_double x = x"
proof (cases "x = 0")
  case True
  then show ?thesis by (simp add: round_to_double_def)
next
  case False
  define ue where "ue = ulp_exponent x"
  have "\<bar>x\<bar> = real_of_int \<bar>m\<bar> * 2 powi j"
    unfolding assms(1) by (simp add: abs_mult)
  also have "\<dots> < real_of_int (2 ^ 53) * 2 powi j"
    using assms(2) by (intro mult_strict_right_mono) simp_all
  also have "real_of_int (2 ^ 53) = (2::real) powi 53" by simp
  also have "(2::real) powi 53 * 2 powi j = 2 powi (53 + j)" by (rule powi_prod)
  finally have "binade x < 53 + j" using False by (intro binade_less)
  then have ue: "ue \<le> j" using assms(3) by (simp add: ulp_exponent_def ue_def)
  define d where "d = nat (j - ue)"
  have "j - ue = int d" using ue by (simp add: d_def)
  have "x / 2 powi ue = real_of_int m * (2 powi j / 2 powi ue)"
    by (simp only: assms(1) times_divide_eq_right)
  also have "2 powi j / 2 powi ue = (2::real) powi (j - ue)" by (rule powi_ratio)
  also have "\<dots> = (2::real) ^ d" by (simp only: \<open>j - ue = int d\<close> power_int_of_nat)
  also have "real_of_int m * 2 ^ d = real_of_int (m * 2 ^ d)" by simp
  finally have "x / 2 powi ulp_exponent x = real_of_int (m * 2 ^ d)" by (simp only: ue_def)
  with False show ?thesis by (rule rnd_on_grid)
qed

lemma rnd_int_exact:
  assumes "\<bar>k\<bar> \<le> 2 ^ 53"
  shows "round_to_double (real_of_int k) = real_of_int k"
proof (cases "\<bar>k\<bar> < 2 ^ 53")
  case True
  have "real_of_int k = real_of_int k * 2 powi 0" by simp
  then show ?thesis using True by (rule rnd_dyadic_exact) simp
next
  case False
  with assms have "\<bar>k\<bar> = 2 ^ 53" by simp
  then consider "k = 2 ^ 53" | "k = - (2 ^ 53)" by linarith
  then show ?thesis
  proof cases
    case 1
    have "real_of_int k = real_of_int 1 * 2 powi 53" unfolding 1 by simp
    then show ?thesis by (rule rnd_dyadic_exact) simp_all
  next
    case 2
    have "real_of_int k = real_of_int (- 1) * 2 powi 53" unfolding 2 by simp
    then show ?thesis by (rule rnd_dyadic_exact) simp_all
  qed
qed

lemma rnd_eval:
  assumes "2 powi e \<le> \<bar>x\<bar>" "\<bar>x\<bar> < 2 powi (e + 1)" "- 1022 \<le> e"
  shows "round_to_double x
           = real_of_int (round_half_even (x / 2 powi (e - 52))) * 2 powi (e - 52)"
proof -
  have "0 < (2::real) powi e" by simp
  with assms(1) have "0 < \<bar>x\<bar>" by linarith
  then have nz: "x \<noteq> 0" by simp
  have "binade x = e" using binade_iff [OF nz, of e] assms by simp
  then have "ulp_exponent x = e - 52" using assms(3) by (simp add: ulp_exponent_def)
  then show ?thesis using nz by (simp add: round_to_double_def)
qed

lemma fl_finite:
  assumes "\<bar>round_to_double x\<bar> < 2 powi 1024"
  shows "fl x = Finite (round_to_double x)"
  using assms by (simp add: fl_def Let_def)

lemma rnd_mono_pos:
  assumes "0 < x" "x \<le> y"
  shows "round_to_double x \<le> round_to_double y"
proof -
  have nz: "x \<noteq> 0" "y \<noteq> 0" using assms by simp_all
  have ax: "\<bar>x\<bar> = x" and ay: "\<bar>y\<bar> = y" using assms by simp_all
  define ex where "ex = max (binade x) (- 1022)"
  define ey where "ey = max (binade y) (- 1022)"
  have bm: "binade x \<le> binade y" using nz(1) assms by (intro binade_mono) simp_all
  then have le: "ex \<le> ey" by (simp add: ex_def ey_def)
  have rx: "round_to_double x = real_of_int (round_half_even (x / 2 powi (ex - 52))) * 2 powi (ex - 52)"
    using nz by (simp add: round_to_double_def ulp_exponent_def ex_def)
  have ry: "round_to_double y = real_of_int (round_half_even (y / 2 powi (ey - 52))) * 2 powi (ey - 52)"
    using nz by (simp add: round_to_double_def ulp_exponent_def ey_def)
  show ?thesis
  proof (cases "ex = ey")
    case True
    have "x / 2 powi (ey - 52) \<le> y / 2 powi (ey - 52)"
      using assms(2) by (simp add: divide_right_mono)
    then have "round_half_even (x / 2 powi (ey - 52)) \<le> round_half_even (y / 2 powi (ey - 52))"
      by (rule rhe_mono)
    then have "real_of_int (round_half_even (x / 2 powi (ey - 52))) * 2 powi (ey - 52)
                 \<le> real_of_int (round_half_even (y / 2 powi (ey - 52))) * 2 powi (ey - 52)"
      by (intro mult_right_mono) simp_all
    then show ?thesis unfolding rx ry True .
  next
    case False
    with le have lt: "ex < ey" by simp
    then have eyb: "ey = binade y" by (auto simp: ex_def ey_def max_def split: if_splits)
    have ylow: "2 powi ey \<le> y" using binade_bounds(1) [OF nz(2)] by (simp add: eyb ay)
    have "x < 2 powi (binade x + 1)" using binade_bounds(2) [OF nz(1)] by (simp add: ax)
    also have "\<dots> \<le> 2 powi (ex + 1)" by (intro power_int_increasing) (simp_all add: ex_def)
    finally have xup: "x < 2 powi (ex + 1)" .
    \<comment> \<open>the rounded x does not exceed the top of its binade\<close>
    have "x / 2 powi (ex - 52) \<le> 2 powi (ex + 1) / 2 powi (ex - 52)"
      using xup by (intro divide_right_mono) simp_all
    also have "2 powi (ex + 1) / 2 powi (ex - 52) = (2::real) powi ((ex + 1) - (ex - 52))"
      by (rule powi_ratio)
    also have "(ex + 1) - (ex - 52) = 53" by simp
    also have "(2::real) powi 53 = real_of_int (2 ^ 53)" by simp
    finally have "round_half_even (x / 2 powi (ex - 52)) \<le> round_half_even (real_of_int (2 ^ 53))"
      by (rule rhe_mono)
    then have "round_half_even (x / 2 powi (ex - 52)) \<le> 2 ^ 53" by (simp only: rhe_of_int)
    then have "real_of_int (round_half_even (x / 2 powi (ex - 52))) \<le> real_of_int (2 ^ 53)"
      by (simp only: of_int_le_iff)
    then have "real_of_int (round_half_even (x / 2 powi (ex - 52))) * 2 powi (ex - 52)
                 \<le> real_of_int (2 ^ 53) * 2 powi (ex - 52)"
      by (intro mult_right_mono) simp_all
    also have "real_of_int (2 ^ 53) = (2::real) powi 53" by simp
    also have "(2::real) powi 53 * 2 powi (ex - 52) = 2 powi (53 + (ex - 52))"
      by (rule powi_prod)
    also have "53 + (ex - 52) = ex + 1" by simp
    finally have top: "round_to_double x \<le> 2 powi (ex + 1)" unfolding rx .
    \<comment> \<open>the rounded y is not below the bottom of its binade\<close>
    have "(2::real) powi 52 = 2 powi (ey - (ey - 52))" by simp
    also have "\<dots> = 2 powi ey / 2 powi (ey - 52)" by (rule powi_ratio [symmetric])
    also have "\<dots> \<le> y / 2 powi (ey - 52)"
      using ylow by (intro divide_right_mono) simp_all
    finally have "real_of_int (2 ^ 52) \<le> y / 2 powi (ey - 52)" by simp
    then have "round_half_even (real_of_int (2 ^ 52)) \<le> round_half_even (y / 2 powi (ey - 52))"
      by (rule rhe_mono)
    then have "2 ^ 52 \<le> round_half_even (y / 2 powi (ey - 52))" by (simp only: rhe_of_int)
    then have "real_of_int (2 ^ 52) \<le> real_of_int (round_half_even (y / 2 powi (ey - 52)))"
      by (simp only: of_int_le_iff)
    then have m52: "real_of_int (2 ^ 52) * 2 powi (ey - 52)
                 \<le> real_of_int (round_half_even (y / 2 powi (ey - 52))) * 2 powi (ey - 52)"
      by (intro mult_right_mono) simp_all
    have "(2::real) powi ey = 2 powi (52 + (ey - 52))" by simp
    also have "\<dots> = 2 powi 52 * 2 powi (ey - 52)" by (rule powi_prod [symmetric])
    also have "(2::real) powi 52 = real_of_int (2 ^ 52)" by simp
    also note m52
    finally have bot: "2 powi ey \<le> round_to_double y" unfolding ry .
    have "(2::real) powi (ex + 1) \<le> 2 powi ey" using lt by (intro power_int_increasing) simp_all
    with top bot show ?thesis by linarith
  qed
qed


lemma rnd_mono:
  assumes "x \<le> y"
  shows "round_to_double x \<le> round_to_double y"
proof -
  consider "0 < x" | "x \<le> 0" "0 \<le> y" | "y < 0" by linarith
  then show ?thesis
  proof cases
    case 1
    then show ?thesis using assms by (rule rnd_mono_pos)
  next
    case 2
    then have "round_to_double x \<le> 0" "0 \<le> round_to_double y"
      by (simp_all add: rnd_nonpos rnd_nonneg)
    then show ?thesis by linarith
  next
    case 3
    then have "0 < - y" "- y \<le> - x" using assms by simp_all
    then have "round_to_double (- y) \<le> round_to_double (- x)" by (rule rnd_mono_pos)
    then show ?thesis by (simp add: rnd_minus)
  qed
qed

lemma fl_bounded:
  assumes "\<bar>round_to_double x\<bar> \<le> 2 ^ 53"
  shows "fl x = Finite (round_to_double x)"
proof -
  have "(2::real) ^ 53 < 2 powi 1024" by simp
  with assms have "\<bar>round_to_double x\<bar> < 2 powi 1024" by linarith
  then show ?thesis by (rule fl_finite)
qed

lemma abs_of_int_le:
  assumes "\<bar>k\<bar> \<le> 2 ^ 53"
  shows "\<bar>real_of_int k\<bar> \<le> 2 ^ 53"
proof -
  have "real_of_int \<bar>k\<bar> \<le> real_of_int (2 ^ 53)" using assms by (simp only: of_int_le_iff)
  then show ?thesis by simp
qed

lemma fl_int:
  assumes "\<bar>k\<bar> \<le> 2 ^ 53"
  shows "fl (real_of_int k) = Finite (real_of_int k)"
proof -
  have r: "round_to_double (real_of_int k) = real_of_int k" using assms by (rule rnd_int_exact)
  have "fl (real_of_int k) = Finite (round_to_double (real_of_int k))"
    by (rule fl_bounded) (simp only: r abs_of_int_le [OF assms])
  then show ?thesis by (simp only: r)
qed

lemma js_minus_int:
  assumes "\<bar>i - j\<bar> \<le> 2 ^ 53"
  shows "js_minus (Finite (real_of_int i)) (Finite (real_of_int j)) = Finite (real_of_int (i - j))"
proof -
  have "js_minus (Finite (real_of_int i)) (Finite (real_of_int j))
          = fl (real_of_int i + - real_of_int j)"
    by (simp add: js_minus_def)
  also have "real_of_int i + - real_of_int j = real_of_int (i - j)" by simp
  also have "fl (real_of_int (i - j)) = Finite (real_of_int (i - j))" using assms by (rule fl_int)
  finally show ?thesis .
qed

text \<open>Rounding a number that lies between two whole numbers.\<close>

lemma rnd_between_ints:
  assumes "real_of_int m \<le> x" "x \<le> real_of_int n" "\<bar>m\<bar> \<le> 2 ^ 53" "\<bar>n\<bar> \<le> 2 ^ 53"
  shows "real_of_int m \<le> round_to_double x" "round_to_double x \<le> real_of_int n"
    and "fl x = Finite (round_to_double x)"
proof -
  have "round_to_double (real_of_int m) \<le> round_to_double x" using assms(1) by (rule rnd_mono)
  then show lo: "real_of_int m \<le> round_to_double x" by (simp only: rnd_int_exact [OF assms(3)])
  have "round_to_double x \<le> round_to_double (real_of_int n)" using assms(2) by (rule rnd_mono)
  then show hi: "round_to_double x \<le> real_of_int n" by (simp only: rnd_int_exact [OF assms(4)])
  have "\<bar>round_to_double x\<bar> \<le> 2 ^ 53"
    using lo hi abs_of_int_le [OF assms(3)] abs_of_int_le [OF assms(4)] by linarith
  then show "fl x = Finite (round_to_double x)" by (rule fl_bounded)
qed

subsection \<open>Statistical conclusions\<close>

lemma getStatConclusion_loaded:
  "getStatConclusion num_str (Some ct) =
     Some (correlation_interpretation (correlation_coefficient ct)
           # statistical_significance (p_value ct)
           # practical_insight num_str ct)"
  by (simp add: getStatConclusion_def)

lemma correlation_strong:
  "(ctype (correlation_interpretation r) = ''strong'' \<and>
    ctext (correlation_interpretation r)
      = ''There is a STRONG positive correlation between Q1 and Q2 responses.'')
   = (r > 0.7)"
  by (simp add: correlation_interpretation_def)

lemma correlation_moderate:
  "(ctype (correlation_interpretation r) = ''moderate'' \<and>
    ctext (correlation_interpretation r)
      = ''There is a MODERATE positive correlation between Q1 and Q2 responses.'')
   = (0.4 < r \<and> r \<le> 0.7)"
  by (simp add: correlation_interpretation_def not_less)

lemma correlation_weak:
  "(ctype (correlation_interpretation r) = ''weak'' \<and>
    ctext (correlation_interpretation r)
      = ''There is a WEAK positive correlation between Q1 and Q2 responses.'')
   = (0.2 < r \<and> r \<le> 0.4)"
  by (simp add: correlation_interpretation_def not_less)

lemma correlation_none:
  "(ctype (correlation_interpretation r) = ''none'' \<and>
    ctext (correlation_interpretation r)
      = ''There is NO significant correlation between Q1 and Q2 responses.'')
   = (\<not> r > 0.2)"
  by (simp add: correlation_interpretation_def not_less)

text \<open>
  C2. For every loaded cross-tabulation result, the first conclusion of getStatConclusion
  reports a STRONG positive correlation exactly when the correlation coefficient exceeds 0.7,
  a MODERATE one exactly when it lies in (0.4, 0.7], a WEAK one exactly when it lies in
  (0.2, 0.4], and no significant correlation exactly in the remaining case.
\<close>

theorem getStatConclusion_correlation_thresholds:
  "\<exists>c rest. getStatConclusion num_str (Some ct) = Some (c # rest) \<and>
     ((ctype c = ''strong'' \<and>
       ctext c = ''There is a STRONG positive correlation between Q1 and Q2 responses.'')
        = (correlation_coefficient ct > 0.7)) \<and>
     ((ctype c = ''moderate'' \<and>
       ctext c = ''There is a MODERATE positive correlation between Q1 and Q2 responses.'')
        = (0.4 < correlation_coefficient ct \<and> correlation_coefficient ct \<le> 0.7)) \<and>
     ((ctype c = ''weak'' \<and>
       ctext c = ''There is a WEAK positive correlation between Q1 and Q2 responses.'')
        = (0.2 < correlation_coefficient ct \<and> correlation_coefficient ct \<le> 0.4)) \<and>
     ((ctype c = ''none'' \<and>
       ctext c = ''There is NO significant correlation between Q1 and Q2 responses.'')
        = (\<not> correlation_coefficient ct > 0.2))"
  unfolding getStatConclusion_loaded
  using correlation_strong correlation_moderate correlation_weak correlation_none
  by blast

text \<open>
  C1 (as stated, refuted). At the p-value 0.005, which lies in [0.001, 0.01), the
  significance wording of getStatConclusion is the plain "statistically significant
  (p < 0.05)" sentence, the same conclusions as for the p-value 0.03: there is no
  separate "very significant" tier.
\<close>

theorem getStatConclusion_no_very_significant_tier:
  "getStatConclusion whole_number_str (Some (crossTab_example (1/2) (5/1000))) =
     getStatConclusion whole_number_str (Some (crossTab_example (1/2) (3/100))) \<and>
   getStatConclusion whole_number_str (Some (crossTab_example (1/2) (5/1000))) =
     Some [\<lparr>ctype = ''moderate'',
             ctext = ''There is a MODERATE positive correlation between Q1 and Q2 responses.'',
             detail = ''Students tend to have similar opinions on both policies.''\<rparr>,
           \<lparr>ctype = ''significant'',
             ctext = ''This relationship is statistically significant (p < 0.05).'',
             detail = ''The observed pattern is unlikely to be due to random chance.''\<rparr>]"
  by (simp add: getStatConclusion_def crossTab_example_def or_zero_def Let_def
        correlation_interpretation_def statistical_significance_def practical_insight_def)

lemma significance_highly:
  "(ctype (statistical_significance p) = ''significant'' \<and>
    ctext (statistical_significance p)
      = ''This relationship is HIGHLY statistically significant (p < 0.001).'')
   = (p < 0.001)"
  by (simp add: statistical_significance_def)

lemma significance_plain:
  "(ctype (statistical_significance p) = ''significant'' \<and>
    ctext (statistical_significance p)
      = ''This relationship is statistically significant (p < 0.05).'')
   = (0.001 \<le> p \<and> p < 0.05)"
  by (simp add: statistical_significance_def not_less)

lemma significance_not:
  "(ctype (statistical_significance p) = ''not_significant'' \<and>
    ctext (statistical_significance p)
      = ''This relationship is NOT statistically significant.'')
   = (0.05 \<le> p)"
  by (simp add: statistical_significance_def not_less)

lemma getSignificanceColor_cases:
  "((getSignificanceColor flagged pValue = ''text-emerald-400'') = (pValue < 0.01)) \<and>
   ((getSignificanceColor flagged pValue = ''text-blue-400'')
      = (0.01 \<le> pValue \<and> flagged)) \<and>
   ((getSignificanceColor flagged pValue = ''text-white/40'')
      = (0.01 \<le> pValue \<and> \<not> flagged))"
  by (simp add: getSignificanceColor_def not_less)

text \<open>
  C1 (amended). The significance wording of getStatConclusion has exactly three tiers:
  "HIGHLY statistically significant" exactly when p < 0.001, the plain "statistically
  significant (p < 0.05)" exactly when 0.001 <= p < 0.05 (so for every p in [0.001, 0.01)
  as well), and "NOT statistically significant" otherwise. The colour of the p-value on
  the comparison page is three-valued too: emerald exactly when p < 0.01, blue exactly when
  p >= 0.01 and the test is flagged significant, and muted otherwise.
\<close>

theorem getStatConclusion_significance_three_tiers:
  "\<exists>c s rest. getStatConclusion num_str (Some ct) = Some (c # s # rest) \<and>
     ((ctype s = ''significant'' \<and>
       ctext s = ''This relationship is HIGHLY statistically significant (p < 0.001).'')
        = (p_value ct < 0.001)) \<and>
     ((ctype s = ''significant'' \<and>
       ctext s = ''This relationship is statistically significant (p < 0.05).'')
        = (0.001 \<le> p_value ct \<and> p_value ct < 0.05)) \<and>
     ((ctype s = ''not_significant'' \<and>
       ctext s = ''This relationship is NOT statistically significant.'')
        = (0.05 \<le> p_value ct)) \<and>
     ((getSignificanceColor flagged pValue = ''text-emerald-400'') = (pValue < 0.01)) \<and>
     ((getSignificanceColor flagged pValue = ''text-blue-400'')
        = (0.01 \<le> pValue \<and> flagged)) \<and>
     ((getSignificanceColor flagged pValue = ''text-white/40'')
        = (0.01 \<le> pValue \<and> \<not> flagged))"
  unfolding getStatConclusion_loaded
  using significance_highly significance_plain significance_not getSignificanceColor_cases
  by blast

subsection \<open>Selecting two groups\<close>

text \<open>
  C6. In every state the comparison page reaches from its initial state, a compareGroups
  request is issued only when both selections are non-empty and distinct (so the two
  selectors of the request differ); the query is enabled only under that condition; and
  whenever group A equals group B or either selection is empty, the Compare button is
  disabled and no request is issued.
\<close>

theorem compare_never_same_group:
  "(\<forall>a b. compareGroups_request (compare_run es ComparePage_initial) = Some (a, b) \<longrightarrow>
      groupA (compare_run es ComparePage_initial) \<noteq> [] \<and>
      groupB (compare_run es ComparePage_initial) \<noteq> [] \<and>
      groupA (compare_run es ComparePage_initial) \<noteq> groupB (compare_run es ComparePage_initial) \<and>
      a \<noteq> b) \<and>
   (comparison_enabled (compare_run es ComparePage_initial) \<longrightarrow>
      groupA (compare_run es ComparePage_initial) \<noteq> [] \<and>
      groupB (compare_run es ComparePage_initial) \<noteq> [] \<and>
      groupA (compare_run es ComparePage_initial) \<noteq> groupB (compare_run es ComparePage_initial)) \<and>
   (groupA (compare_run es ComparePage_initial) = groupB (compare_run es ComparePage_initial) \<or>
    groupA (compare_run es ComparePage_initial) = [] \<or>
    groupB (compare_run es ComparePage_initial) = [] \<longrightarrow>
      compare_button_disabled (compare_run es ComparePage_initial) \<and>
      compareGroups_request (compare_run es ComparePage_initial) = None)"
  by (auto simp: compareGroups_request_def comparison_enabled_def compare_button_disabled_def
           split: if_splits)

lemma compare_run_example:
  "compare_run [GroupsLoaded groups_example, ClickCompare] ComparePage_initial
   = \<lparr>groupType = Course, groupA = ''BTech'', groupB = ''MTech'', shouldCompare = True,
      availableGroups = Some groups_example\<rparr>"
  by (simp add: compare_button_disabled_def ComparePage_initial_def groups_example_def
        set_initial_selections_def handleCompare_def Let_def)

theorem compare_never_same_group_witness:
  "compareGroups_request (compare_run [GroupsLoaded groups_example, ClickCompare] ComparePage_initial)
     = Some (''course:BTech'', ''course:MTech'') \<and>
   groupA (compare_run [GroupsLoaded groups_example, ClickCompare] ComparePage_initial) \<noteq> [] \<and>
   groupB (compare_run [GroupsLoaded groups_example, ClickCompare] ComparePage_initial) \<noteq> [] \<and>
   groupA (compare_run [GroupsLoaded groups_example, ClickCompare] ComparePage_initial)
     \<noteq> groupB (compare_run [GroupsLoaded groups_example, ClickCompare] ComparePage_initial)"
proof -
  let ?s = "compare_run [GroupsLoaded groups_example, ClickCompare] ComparePage_initial"
  have req: "compareGroups_request ?s = Some (''course:BTech'', ''course:MTech'')"
    unfolding compare_run_example
    by (simp add: compareGroups_request_def comparison_enabled_def group_type_str_def)
  from compare_never_same_group [of "[GroupsLoaded groups_example, ClickCompare]"] req
  have "groupA ?s \<noteq> [] \<and> groupB ?s \<noteq> [] \<and> groupA ?s \<noteq> groupB ?s"
    by blast
  with req show ?thesis by blast
qed

subsection \<open>Quality distribution\<close>
















lemma rhe_down:
  assumes "real_of_int f \<le> y" "y < real_of_int f + 1 / 2"
  shows "round_half_even y = f"
proof -
  have "\<lfloor>y\<rfloor> = f" using assms by linarith
  then show ?thesis using assms by (simp add: round_half_even_def Let_def)
qed
















subsection \<open>Explorer pagination\<close>

lemma ceiling_div_20: "\<lceil>real n / 20\<rceil> = int ((n + 19) div 20)"
proof -
  define q where "q = (n + 19) div 20"
  define r where "r = (n + 19) mod 20"
  have e: "n + 19 = 20 * q + r" by (simp add: q_def r_def)
  have rb: "r < 20" by (simp add: r_def)
  have lo: "n \<le> 20 * q" using e rb by linarith
  have hi: "20 * q < n + 20" using e rb by linarith
  have "real n \<le> real (20 * q)" using lo by (simp only: of_nat_le_iff)
  then have lo': "real n \<le> 20 * real q" by simp
  have "real (20 * q) < real (n + 20)" using hi by (simp only: of_nat_less_iff)
  then have hi': "20 * real q < real n + 20" by simp
  have "\<lceil>real n / 20\<rceil> = int q"
  proof (rule ceiling_unique)
    show "real_of_int (int q) - 1 < real n / 20" using hi' by simp
    show "real n / 20 \<le> real_of_int (int q)" using lo' by simp
  qed
  then show ?thesis by (simp add: q_def)
qed

text \<open>The number of pages is the ceiling of total / 20.\<close>

lemma totalPages_ceiling:
  "totalPages s =
     (case responses_data s of None \<Rightarrow> 0 | Some r \<Rightarrow> int ((total r + 19) div 20))"
  by (simp add: totalPages_def pageSize_def ceiling_div_20 split: option.splits)

text \<open>Previous and Next keep a page number that is in range within range.\<close>

lemma previous_next_in_range:
  "1 \<le> page s \<Longrightarrow> page s \<le> totalPages s \<Longrightarrow>
     1 \<le> page (explorer_step ClickPrevious s) \<and>
     page (explorer_step ClickPrevious s) \<le> totalPages (explorer_step ClickPrevious s) \<and>
     1 \<le> page (explorer_step ClickNext s) \<and>
     page (explorer_step ClickNext s) \<le> totalPages (explorer_step ClickNext s)"
  by (simp add: previous_page_def next_page_def totalPages_def)

text \<open>
  The search input, the two filter toggles and the Clear Filters button beside the result
  count all set the page to 1.
\<close>

lemma filter_changes_reset_page:
  "page (explorer_step (SearchInput v) s) = 1 \<and>
   page (explorer_step (ToggleCourse c) s) = 1 \<and>
   page (explorer_step (ToggleYear y) s) = 1 \<and>
   page (clear_filters s) = 1"
  by (simp add: search_changed_def toggleCourse_def toggleYear_def clear_filters_def)

text \<open>
  C7 (the code at the failing input). After the run that leaves page 3 empty, the Clear
  Filters action of the empty state clears the course filter, the year filter and the search
  text, and the page number stays 3: this change of the filters does not reset the page to 1.
\<close>

theorem empty_state_clear_filters_keeps_page:
  "explorer_run stale_page_events ExplorerPage_initial =
     \<lparr>searchQuery = [], selectedCourses = [''BTech''], selectedYears = [], page = 3,
      responses_data = Some (page_of 25 [])\<rparr> \<and>
   explorer_run (stale_page_events @ [ClickEmptyStateClearFilters]) ExplorerPage_initial =
     \<lparr>searchQuery = [], selectedCourses = [], selectedYears = [], page = 3,
      responses_data = Some (page_of 25 [])\<rparr>"
  by (simp add: stale_page_events_def ExplorerPage_initial_def toggleCourse_def toggle_def
       pagination_shown_def totalPages_ceiling next_page_def page_of_def empty_state_shown_def
       empty_state_clear_filters_def)

subsection \<open>CSV export\<close>

lemma quotes_doubled_Cons: "c \<noteq> CHR 0x22 \<Longrightarrow> quotes_doubled (c # xs) = quotes_doubled xs"
  by (cases xs) simp_all

lemma quotes_doubled_double_quotes: "quotes_doubled (double_quotes cs)"
  by (induction cs) (simp_all add: quotes_doubled_Cons)

lemma undouble_quotes_Cons:
  "c \<noteq> CHR 0x22 \<Longrightarrow> undouble_quotes (c # xs) = c # undouble_quotes xs"
  by (cases xs) simp_all

lemma undouble_double_quotes: "undouble_quotes (double_quotes cs) = cs"
  by (induction cs) (simp_all add: undouble_quotes_Cons)

lemma csv_header_text:
  "join '','' csv_header = ''ID,Name,Roll No,Course,Year,Q1,Q2,Quality Score,Comment''"
  by (simp add: csv_header_def)

lemma csv_fields_shape:
  "length (csv_fields r) = 9 \<and>
   csv_fields r ! 1 = quoted (name r) \<and>
   csv_fields r ! 3 = quoted (course r) \<and>
   csv_fields r ! 8 = quoted (double_quotes (comments r))"
  by (simp add: csv_fields_def)

text \<open>
  C10. For every loaded response page, exportFilteredData produces the lines, joined by
  newlines, of the fixed header of 9 columns followed by exactly one row per response, in
  page order; each row is the comma-joined list of 9 fields, of which the name, the course
  and the comment are wrapped in double quotes, and in the comment every double quote is
  doubled (all its double quotes stand in pairs, and undoubling gives the comment back).
\<close>

theorem exportFilteredData_csv:
  assumes "responses_data s = Some rs"
  shows "\<exists>rows.
     exportFilteredData s
       = Some (join [CHR 0x0A]
                 (''ID,Name,Roll No,Course,Year,Q1,Q2,Quality Score,Comment'' # rows)) \<and>
     length csv_header = 9 \<and>
     length rows = length (responses rs) \<and>
     (\<forall>i < length (responses rs).
        rows ! i = join '','' (csv_fields (responses rs ! i)) \<and>
        length (csv_fields (responses rs ! i)) = 9 \<and>
        csv_fields (responses rs ! i) ! 1 = quoted (name (responses rs ! i)) \<and>
        csv_fields (responses rs ! i) ! 3 = quoted (course (responses rs ! i)) \<and>
        csv_fields (responses rs ! i) ! 8
          = quoted (double_quotes (comments (responses rs ! i))) \<and>
        quotes_doubled (double_quotes (comments (responses rs ! i))) \<and>
        undouble_quotes (double_quotes (comments (responses rs ! i)))
          = comments (responses rs ! i))"
proof -
  let ?rows = "map (\<lambda>r. join '','' (csv_fields r)) (responses rs)"
  have "exportFilteredData s
       = Some (join [CHR 0x0A]
                 (''ID,Name,Roll No,Course,Year,Q1,Q2,Quality Score,Comment'' # ?rows))"
    using assms by (simp add: exportFilteredData_def csv_header_text)
  moreover have "length csv_header = 9" by (simp add: csv_header_def)
  moreover have "length ?rows = length (responses rs)" by simp
  moreover have "\<forall>i < length (responses rs).
        ?rows ! i = join '','' (csv_fields (responses rs ! i)) \<and>
        length (csv_fields (responses rs ! i)) = 9 \<and>
        csv_fields (responses rs ! i) ! 1 = quoted (name (responses rs ! i)) \<and>
        csv_fields (responses rs ! i) ! 3 = quoted (course (responses rs ! i)) \<and>
        csv_fields (responses rs ! i) ! 8
          = quoted (double_quotes (comments (responses rs ! i))) \<and>
        quotes_doubled (double_quotes (comments (responses rs ! i))) \<and>
        undouble_quotes (double_quotes (comments (responses rs ! i)))
          = comments (responses rs ! i)"
    using csv_fields_shape quotes_doubled_double_quotes undouble_double_quotes by simp
  ultimately show ?thesis by blast
qed

lemma export_example:
  "exportFilteredData explorer_example =
     Some (''ID,Name,Roll No,Course,Year,Q1,Q2,Quality Score,Comment'' @ [CHR 0x0A] @
           ''7,'' @ [CHR 0x22] @ ''A. Student'' @ [CHR 0x22] @ '',21CS10001,'' @
           [CHR 0x22] @ ''BTech'' @ [CHR 0x22] @ '',2nd,No,,85,'' @
           [CHR 0x22] @ ''This is a '' @ [CHR 0x22, CHR 0x22] @ ''privacy'' @
           [CHR 0x22, CHR 0x22] @ '' issue'' @ [CHR 0x22] @ [CHR 0x0A] @
           ''12,'' @ [CHR 0x22] @ ''B. Scholar'' @ [CHR 0x22] @ '',20PH40007,'' @
           [CHR 0x22] @ ''PhD'' @ [CHR 0x22] @ '',4th,Yes,No,0,'' @ [CHR 0x22, CHR 0x22])"
  by (simp add: exportFilteredData_def explorer_example_def page_of_def response_example_def
      response_example2_def csv_header_def csv_fields_def quoted_def show_int_def
      show_nat.simps digit_char_def)

theorem exportFilteredData_csv_witness:
  "responses_data explorer_example = Some (page_of 2 [response_example, response_example2]) \<and>
   exportFilteredData explorer_example =
     Some (''ID,Name,Roll No,Course,Year,Q1,Q2,Quality Score,Comment'' @ [CHR 0x0A] @
           ''7,'' @ [CHR 0x22] @ ''A. Student'' @ [CHR 0x22] @ '',21CS10001,'' @
           [CHR 0x22] @ ''BTech'' @ [CHR 0x22] @ '',2nd,No,,85,'' @
           [CHR 0x22] @ ''This is a '' @ [CHR 0x22, CHR 0x22] @ ''privacy'' @
           [CHR 0x22, CHR 0x22] @ '' issue'' @ [CHR 0x22] @ [CHR 0x0A] @
           ''12,'' @ [CHR 0x22] @ ''B. Scholar'' @ [CHR 0x22] @ '',20PH40007,'' @
           [CHR 0x22] @ ''PhD'' @ [CHR 0x22] @ '',4th,Yes,No,0,'' @ [CHR 0x22, CHR 0x22]) \<and>
   quotes_doubled (double_quotes (comments response_example))"
proof -
  have h: "responses_data explorer_example
             = Some (page_of 2 [response_example, response_example2])"
    by (simp add: explorer_example_def)
  from exportFilteredData_csv [OF h]
  have "\<forall>i < length (responses (page_of 2 [response_example, response_example2])).
          quotes_doubled (double_quotes
            (comments (responses (page_of 2 [response_example, response_example2]) ! i)))"
    by blast
  moreover have "0 < length (responses (page_of 2 [response_example, response_example2]))"
    by (simp add: page_of_def)
  ultimately have "quotes_doubled (double_quotes
      (comments (responses (page_of 2 [response_example, response_example2]) ! 0)))"
    by blast
  then have "quotes_doubled (double_quotes (comments response_example))"
    by (simp add: page_of_def)
  with h export_example show ?thesis by blast
qed

subsection \<open>Word cloud\<close>

lemma mset_insert_cmp: "mset (insert_cmp cmp x xs) = add_mset x (mset xs)"
  by (induction xs) simp_all

lemma mset_sort_cmp: "mset (sort_cmp cmp xs) = mset xs"
  by (induction xs) (simp_all add: sort_cmp_def mset_insert_cmp)

lemma length_sort_cmp: "length (sort_cmp cmp xs) = length xs"
  using mset_sort_cmp [of cmp xs] by (metis size_mset)

text \<open>
  On counts of magnitude up to 2^52 the comparator is exact, and the sort is the stable
  sort by non-increasing count.
\<close>

lemma by_count_desc_exact:
  assumes "\<bar>word_count x\<bar> \<le> 2 ^ 52" "\<bar>word_count y\<bar> \<le> 2 ^ 52"
  shows "by_count_desc x y = Finite (real_of_int (word_count y - word_count x))"
proof -
  have "\<bar>word_count y - word_count x\<bar> \<le> 2 ^ 53" using assms by simp
  then show ?thesis unfolding by_count_desc_def count_number_def by (rule js_minus_int)
qed

lemma not_after_by_count_desc:
  assumes "\<bar>word_count x\<bar> \<le> 2 ^ 52" "\<bar>word_count y\<bar> \<le> 2 ^ 52"
  shows "not_after (by_count_desc x y) \<longleftrightarrow> - word_count x \<le> - word_count y"
  by (simp add: by_count_desc_exact [OF assms])

lemma insert_cmp_insort:
  assumes "\<bar>word_count x\<bar> \<le> 2 ^ 52" "\<forall>w \<in> set xs. \<bar>word_count w\<bar> \<le> 2 ^ 52"
  shows "insert_cmp by_count_desc x xs = insort_key (\<lambda>w. - word_count w) x xs"
  using assms(2)
proof (induction xs)
  case Nil
  then show ?case by simp
next
  case (Cons y ys)
  have y: "\<bar>word_count y\<bar> \<le> 2 ^ 52" using Cons.prems by simp
  have "insert_cmp by_count_desc x ys = insort_key (\<lambda>w. - word_count w) x ys"
    using Cons.prems by (intro Cons.IH) simp
  then show ?case by (simp add: not_after_by_count_desc [OF assms(1) y])
qed

lemma sort_cmp_sort_key:
  assumes "\<forall>w \<in> set xs. \<bar>word_count w\<bar> \<le> 2 ^ 52"
  shows "sort_cmp by_count_desc xs = sort_key (\<lambda>w. - word_count w) xs"
  using assms
proof (induction xs)
  case Nil
  then show ?case by (simp add: sort_cmp_def)
next
  case (Cons x xs)
  have ih: "sort_cmp by_count_desc xs = sort_key (\<lambda>w. - word_count w) xs"
    using Cons.prems by (intro Cons.IH) simp
  have "sort_cmp by_count_desc (x # xs) = insert_cmp by_count_desc x (sort_cmp by_count_desc xs)"
    by (simp add: sort_cmp_def)
  also have "\<dots> = insert_cmp by_count_desc x (sort_key (\<lambda>w. - word_count w) xs)"
    by (simp only: ih)
  also have "\<dots> = insort_key (\<lambda>w. - word_count w) x (sort_key (\<lambda>w. - word_count w) xs)"
    using Cons.prems by (intro insert_cmp_insort) simp_all
  finally show ?case by simp
qed

lemma sorted_sort_key_desc:
  "sorted_wrt count_desc (sort_key (\<lambda>w. - word_count w) xs)"
proof -
  have "sorted (map (\<lambda>w. - word_count w) (sort_key (\<lambda>w. - word_count w) xs))"
    by (rule sorted_sort_key)
  then show ?thesis by (simp add: sorted_wrt_map)
qed

lemma sorted_first_max:
  "sorted_wrt count_desc xs \<Longrightarrow> x \<in> set xs \<Longrightarrow> word_count x \<le> word_count (xs ! 0)"
  by (cases xs) auto

lemma sorted_last_min:
  "sorted_wrt count_desc xs \<Longrightarrow> x \<in> set xs \<Longrightarrow>
     word_count (xs ! (length xs - 1)) \<le> word_count x"
proof (induction xs)
  case Nil
  then show ?case by simp
next
  case (Cons y ys)
  show ?case
  proof (cases ys)
    case Nil
    with Cons.prems show ?thesis by simp
  next
    case (Cons z zs)
    have l: "(y # ys) ! (length (y # ys) - 1) = ys ! (length ys - 1)"
      using Cons by simp
    have "length ys - 1 < length ys" using Cons by simp
    then have in_ys: "ys ! (length ys - 1) \<in> set ys" by (rule nth_mem)
    show ?thesis
    proof (cases "x = y")
      case True
      with Cons.prems in_ys l show ?thesis by auto
    next
      case False
      with Cons.prems have "x \<in> set ys" "sorted_wrt count_desc ys" by auto
      with Cons.IH l show ?thesis by simp
    qed
  qed
qed

text \<open>The range of counts after the guard, and the normalized count.\<close>

lemma count_range_guarded:
  assumes "lo \<le> hi" "\<bar>lo\<bar> \<le> 2 ^ 52" "\<bar>hi\<bar> \<le> 2 ^ 52"
  shows "js_or (js_minus (Finite (real_of_int hi)) (Finite (real_of_int lo))) (Finite 1)
           = Finite (real_of_int (if hi - lo = 0 then 1 else hi - lo))"
proof -
  have "\<bar>hi - lo\<bar> \<le> 2 ^ 53" using assms by simp
  then have "js_minus (Finite (real_of_int hi)) (Finite (real_of_int lo))
               = Finite (real_of_int (hi - lo))" by (rule js_minus_int)
  then show ?thesis by (simp add: js_or_def)
qed

lemma normalized_unit:
  assumes "lo \<le> c" "c \<le> hi" "\<bar>lo\<bar> \<le> 2 ^ 52" "\<bar>hi\<bar> \<le> 2 ^ 52"
  shows "\<exists>t. js_divide (js_minus (Finite (real_of_int c)) (Finite (real_of_int lo)))
                (js_or (js_minus (Finite (real_of_int hi)) (Finite (real_of_int lo))) (Finite 1))
              = Finite t \<and> 0 \<le> t \<and> t \<le> 1"
proof -
  define r where "r = (if hi - lo = 0 then 1 else hi - lo)"
  define x where "x = real_of_int (c - lo) / real_of_int r"
  have r1: "1 \<le> r" using assms by (simp add: r_def)
  have cr: "c - lo \<le> r" using assms by (simp add: r_def)
  have "lo \<le> hi" using assms by simp
  then have rng: "js_or (js_minus (Finite (real_of_int hi)) (Finite (real_of_int lo))) (Finite 1)
           = Finite (real_of_int r)"
    unfolding r_def using assms(3,4) by (rule count_range_guarded)
  have "\<bar>c - lo\<bar> \<le> 2 ^ 53" using assms by simp
  then have num: "js_minus (Finite (real_of_int c)) (Finite (real_of_int lo))
               = Finite (real_of_int (c - lo))" by (rule js_minus_int)
  have rpos: "0 < real_of_int r" using r1 by simp
  have x0: "real_of_int 0 \<le> x" using assms(1) rpos by (simp add: x_def)
  have "real_of_int (c - lo) \<le> real_of_int r" using cr by (simp only: of_int_le_iff)
  then have x1: "x \<le> real_of_int 1" using rpos by (simp add: x_def)
  have b: "\<bar>0::int\<bar> \<le> 2 ^ 53" "\<bar>1::int\<bar> \<le> 2 ^ 53" by simp_all
  note t = rnd_between_ints [OF x0 x1 b]
  have "js_divide (Finite (real_of_int (c - lo))) (Finite (real_of_int r)) = fl x"
    using rpos by (simp add: x_def)
  then have "js_divide (js_minus (Finite (real_of_int c)) (Finite (real_of_int lo)))
                (js_or (js_minus (Finite (real_of_int hi)) (Finite (real_of_int lo))) (Finite 1))
              = Finite (round_to_double x)"
    by (simp only: num rng t(3))
  moreover have "0 \<le> round_to_double x" "round_to_double x \<le> 1" using t(1,2) by simp_all
  ultimately show ?thesis by blast
qed

text \<open>The interpolated font size after rounding.\<close>

lemma interpolated_font_size:
  assumes "0 \<le> t" "t \<le> 1" "\<bar>a\<bar> \<le> 2 ^ 52" "\<bar>b\<bar> \<le> 2 ^ 52"
  shows "\<exists>f. math_round (js_plus (Finite (real_of_int a))
                (js_times (Finite t)
                   (js_minus (Finite (real_of_int b)) (Finite (real_of_int a)))))
              = Finite (real_of_int f) \<and> min a b \<le> f \<and> f \<le> max a b"
proof -
  define D where "D = b - a"
  define P where "P = round_to_double (t * real_of_int D)"
  define S where "S = round_to_double (real_of_int a + P)"
  have D53: "\<bar>D\<bar> \<le> 2 ^ 53" using assms(3,4) by (simp add: D_def)
  then have diff: "js_minus (Finite (real_of_int b)) (Finite (real_of_int a))
                     = Finite (real_of_int D)"
    unfolding D_def by (rule js_minus_int)
  have p0: "real_of_int (min 0 D) \<le> t * real_of_int D"
  proof (cases "0 \<le> D")
    case True
    then have "0 \<le> t * real_of_int D" using assms(1) by simp
    with True show ?thesis by simp
  next
    case False
    then have "0 \<le> real_of_int (- D)" by simp
    with assms(2) have "t * real_of_int (- D) \<le> 1 * real_of_int (- D)" by (rule mult_right_mono)
    with False show ?thesis by simp
  qed
  have p1: "t * real_of_int D \<le> real_of_int (max 0 D)"
  proof (cases "0 \<le> D")
    case True
    then have "0 \<le> real_of_int D" by simp
    with assms(2) have "t * real_of_int D \<le> 1 * real_of_int D" by (rule mult_right_mono)
    with True show ?thesis by simp
  next
    case False
    then have "0 \<le> real_of_int (- D)" by simp
    with assms(1) have "0 \<le> t * real_of_int (- D)" by (rule mult_nonneg_nonneg)
    with False show ?thesis by simp
  qed
  have bD: "\<bar>min 0 D\<bar> \<le> 2 ^ 53" "\<bar>max 0 D\<bar> \<le> 2 ^ 53" using D53 by simp_all
  note p = rnd_between_ints [OF p0 p1 bD, folded P_def]
  have prod: "js_times (Finite t) (Finite (real_of_int D)) = Finite P"
    using p(3) by simp
  have ab: "min a b = a + min 0 D" "max a b = a + max 0 D" by (simp_all add: D_def)
  have s0: "real_of_int (min a b) \<le> real_of_int a + P" using p(1) by (simp add: ab)
  have s1: "real_of_int a + P \<le> real_of_int (max a b)" using p(2) by (simp add: ab)
  have bab: "\<bar>min a b\<bar> \<le> 2 ^ 53" "\<bar>max a b\<bar> \<le> 2 ^ 53" using assms(3,4) by simp_all
  note s = rnd_between_ints [OF s0 s1 bab, folded S_def]
  have sum: "js_plus (Finite (real_of_int a)) (Finite P) = Finite S" using s(3) by simp
  define f where "f = \<lfloor>S + 1 / 2\<rfloor>"
  have "real_of_int (min a b) \<le> S + 1 / 2" using s(1) by linarith
  then have f0: "min a b \<le> f" unfolding f_def by (simp only: le_floor_iff)
  have "S + 1 / 2 < real_of_int (max a b) + 1" using s(2) by linarith
  then have f1: "f \<le> max a b" unfolding f_def by (simp only: floor_le_iff)
  have "math_round (js_plus (Finite (real_of_int a))
                (js_times (Finite t)
                   (js_minus (Finite (real_of_int b)) (Finite (real_of_int a)))))
          = Finite (real_of_int f)"
    by (simp only: diff prod sum math_round.simps f_def)
  with f0 f1 show ?thesis by blast
qed

lemma process_word_fontSize:
  assumes "lo \<le> word_count w" "word_count w \<le> hi" "\<bar>lo\<bar> \<le> 2 ^ 52" "\<bar>hi\<bar> \<le> 2 ^ 52"
    and "\<bar>a\<bar> \<le> 2 ^ 52" "\<bar>b\<bar> \<le> 2 ^ 52"
  shows "\<exists>f. fontSize (process_word (Finite (real_of_int lo))
                 (js_or (js_minus (Finite (real_of_int hi)) (Finite (real_of_int lo))) (Finite 1))
                 (Finite (real_of_int a)) (Finite (real_of_int b)) colors (i, w))
              = Finite (real_of_int f) \<and> min a b \<le> f \<and> f \<le> max a b"
proof -
  obtain t where t: "js_divide (js_minus (Finite (real_of_int (word_count w))) (Finite (real_of_int lo)))
                (js_or (js_minus (Finite (real_of_int hi)) (Finite (real_of_int lo))) (Finite 1))
              = Finite t" and t01: "0 \<le> t" "t \<le> 1"
    using normalized_unit [OF assms(1-4)] by blast
  have "fontSize (process_word (Finite (real_of_int lo))
                 (js_or (js_minus (Finite (real_of_int hi)) (Finite (real_of_int lo))) (Finite 1))
                 (Finite (real_of_int a)) (Finite (real_of_int b)) colors (i, w))
        = math_round (js_plus (Finite (real_of_int a))
                (js_times (Finite t)
                   (js_minus (Finite (real_of_int b)) (Finite (real_of_int a)))))"
    by (simp add: process_word_def Let_def count_number_def t)
  with interpolated_font_size [OF t01 assms(5,6)] show ?thesis by simp
qed

lemma process_word_truncate:
  "WordCloudWord.truncate (process_word lo r a b colors (i, w)) = w"
  by (simp add: process_word_def Let_def WordCloudWord.truncate_def)

lemma process_word_count:
  "word_count (process_word lo r a b colors (i, w)) = word_count w"
  by (simp add: process_word_def Let_def)


lemma slice_final_nonneg:
  assumes "0 \<le> m"
  shows "slice_final (Finite m) len = min (nat \<lfloor>m\<rfloor>) len"
proof -
  have "(0::int) \<le> \<lfloor>m\<rfloor>" using assms by (simp only: zero_le_floor)
  then show ?thesis using assms by (simp add: slice_final_def Let_def)
qed

lemma take_min_length:
  assumes "length ys = n"
  shows "take (min k n) ys = take k ys"
  using assms by (simp add: min_def)

lemma processedWords_eval:
  assumes "a < length h" "h ! a \<noteq> []"
  shows "processedWords (Some a) maxWords minFontSize maxFontSize colors h =
     (let srt = sort_cmp by_count_desc (h ! a);
          top = take (slice_final maxWords (length (h ! a))) srt in
        (if top = [] then []
         else map (process_word (count_number (top ! (length top - 1)))
                     (js_or (js_minus (count_number (top ! 0))
                               (count_number (top ! (length top - 1)))) (Finite 1))
                     minFontSize maxFontSize colors)
                (zip [0..<length top] top),
         h @ [srt, top]))"
  using assms
  by (simp add: processedWords_def spread_copy_def alloc_def sort_in_place_def slice_from_0_def
        nth_append Let_def length_sort_cmp)

lemma map_zip_index:
  assumes "\<And>i w. f (i, w) = g w"
  shows "map f (zip [0..<length xs] xs) = map g xs"
proof -
  have a: "map snd (zip [0..<length xs] xs) = xs" by (rule map_snd_zip) simp
  have "map f (zip [0..<length xs] xs) = map (g \<circ> snd) (zip [0..<length xs] xs)"
    by (rule map_cong) (auto simp: assms)
  also have "\<dots> = map g (map snd (zip [0..<length xs] xs))" by (simp only: map_map)
  also have "\<dots> = map g xs" by (simp only: a)
  finally show ?thesis .
qed

text \<open>
  C9 (amended). For every non-empty input word list whose counts are whole numbers of
  magnitude at most 2^52, every maxWords that is not negative, and whole-number minFontSize
  and maxFontSize of magnitude at most 2^52: processedWords returns at most maxWords entries;
  they are the first floor(maxWords) words of the input sorted stably by non-increasing
  count, so they are in non-increasing order of count and, followed by the remaining words,
  form a rearrangement of the input in that order; every fontSize, computed in
  double-precision arithmetic, is a whole number between the smaller and the larger of
  minFontSize and maxFontSize inclusive, also when all counts are equal (the range 0 is then
  replaced by 1, without which the font size is NaN); and the arrays that existed before the
  call, the input among them, are unchanged after it.
\<close>

theorem processedWords_top_words:
  assumes "a < length h" and "h ! a \<noteq> []"
    and "\<forall>w \<in> set (h ! a). \<bar>word_count w\<bar> \<le> 2 ^ 52"
    and "0 \<le> maxWords"
    and "\<bar>minFontSize\<bar> \<le> 2 ^ 52" and "\<bar>maxFontSize\<bar> \<le> 2 ^ 52"
  shows "\<exists>ps h'.
     processedWords (Some a) (Finite maxWords) (Finite (real_of_int minFontSize))
       (Finite (real_of_int maxFontSize)) colors h = (ps, h') \<and>
     real (length ps) \<le> maxWords \<and>
     map WordCloudWord.truncate ps
       = take (nat \<lfloor>maxWords\<rfloor>) (sort_key (\<lambda>w. - word_count w) (h ! a)) \<and>
     sorted_wrt (\<lambda>x y. word_count y \<le> word_count x) ps \<and>
     (\<exists>rest. mset (map WordCloudWord.truncate ps @ rest) = mset (h ! a) \<and>
        sorted_wrt (\<lambda>x y. word_count y \<le> word_count x)
          (map WordCloudWord.truncate ps @ rest)) \<and>
     (\<forall>p \<in> set ps. \<exists>f. fontSize p = Finite (real_of_int f) \<and>
                     min minFontSize maxFontSize \<le> f \<and> f \<le> max minFontSize maxFontSize) \<and>
     length h \<le> length h' \<and>
     (\<forall>b < length h. h' ! b = h ! b)"
proof -
  define k where "k = nat \<lfloor>maxWords\<rfloor>"
  define srt where "srt = sort_cmp by_count_desc (h ! a)"
  define top where "top = take k srt"
  define lo where "lo = word_count (top ! (length top - 1))"
  define hi where "hi = word_count (top ! 0)"
  define pw where "pw = process_word (Finite (real_of_int lo))
                     (js_or (js_minus (Finite (real_of_int hi)) (Finite (real_of_int lo))) (Finite 1))
                     (Finite (real_of_int minFontSize)) (Finite (real_of_int maxFontSize)) colors"
  define ps where "ps = (if top = [] then [] else map pw (zip [0..<length top] top))"
  define h' where "h' = h @ [srt, top]"
  have len_srt: "length srt = length (h ! a)" unfolding srt_def by (rule length_sort_cmp)
  have "slice_final (Finite maxWords) (length (h ! a)) = min k (length (h ! a))"
    unfolding k_def using assms(4) by (rule slice_final_nonneg)
  then have sl: "take (slice_final (Finite maxWords) (length (h ! a))) srt = top"
    unfolding top_def using len_srt by (simp only: take_min_length)
  have eval: "processedWords (Some a) (Finite maxWords) (Finite (real_of_int minFontSize))
       (Finite (real_of_int maxFontSize)) colors h = (ps, h')"
    unfolding processedWords_eval [OF assms(1,2)] srt_def [symmetric] Let_def sl
    by (simp add: ps_def h'_def pw_def lo_def hi_def count_number_def)
  have srt_key: "srt = sort_key (\<lambda>w. - word_count w) (h ! a)"
    unfolding srt_def using assms(3) by (rule sort_cmp_sort_key)
  have srt_sorted: "sorted_wrt count_desc srt"
    unfolding srt_key by (rule sorted_sort_key_desc)
  have top_sorted: "sorted_wrt count_desc top"
    unfolding top_def using srt_sorted by (rule sorted_wrt_take)
  have "set srt = set (h ! a)" unfolding srt_def using mset_sort_cmp by (rule mset_eq_setD)
  moreover have "set top \<subseteq> set srt" unfolding top_def by (rule set_take_subset)
  ultimately have top_bounded: "\<bar>word_count w\<bar> \<le> 2 ^ 52" if "w \<in> set top" for w
    using assms(3) that by blast
  have trunc: "map WordCloudWord.truncate ps = top"
  proof (cases "top = []")
    case True
    then show ?thesis by (simp add: ps_def)
  next
    case False
    have "map (WordCloudWord.truncate \<circ> pw) (zip [0..<length top] top) = map (\<lambda>w. w) top"
      by (rule map_zip_index) (simp add: pw_def process_word_truncate)
    with False show ?thesis by (simp add: ps_def)
  qed
  have counts: "map word_count ps = map word_count top"
  proof (cases "top = []")
    case True
    then show ?thesis by (simp add: ps_def)
  next
    case False
    have "map (word_count \<circ> pw) (zip [0..<length top] top) = map word_count top"
      by (rule map_zip_index) (simp add: pw_def process_word_count)
    with False show ?thesis by (simp add: ps_def)
  qed
  have "length ps = length top" using arg_cong [OF counts, of length] by simp
  then have "length ps \<le> k" by (simp add: top_def)
  then have "real (length ps) \<le> real k" by (simp only: of_nat_le_iff)
  also have "real k = real_of_int \<lfloor>maxWords\<rfloor>" using assms(4) by (simp add: k_def)
  also have "\<dots> \<le> maxWords" by (rule of_int_floor_le)
  finally have len: "real (length ps) \<le> maxWords" .
  have "sorted_wrt (\<lambda>x y. y \<le> x) (map word_count top)"
    using top_sorted by (simp add: sorted_wrt_map)
  then have "sorted_wrt (\<lambda>x y. y \<le> x) (map word_count ps)"
    by (simp only: counts)
  then have ps_sorted: "sorted_wrt (\<lambda>x y. word_count y \<le> word_count x) ps"
    by (simp add: sorted_wrt_map)
  have perm: "mset (top @ drop k srt) = mset (h ! a) \<and>
              sorted_wrt count_desc (top @ drop k srt)"
    using srt_sorted by (simp add: top_def srt_def mset_sort_cmp)
  have fonts: "\<forall>p \<in> set ps. \<exists>f. fontSize p = Finite (real_of_int f) \<and>
                     min minFontSize maxFontSize \<le> f \<and> f \<le> max minFontSize maxFontSize"
  proof
    fix p assume "p \<in> set ps"
    then have ne: "top \<noteq> []" by (auto simp: ps_def split: if_splits)
    from \<open>p \<in> set ps\<close> obtain i w where iw: "(i, w) \<in> set (zip [0..<length top] top)"
      and p: "p = pw (i, w)"
      by (auto simp: ps_def split: if_splits)
    from iw have w: "w \<in> set top" by (rule set_zip_rightD)
    have "top ! (length top - 1) \<in> set top" using ne by (intro nth_mem) simp
    then have blo: "\<bar>lo\<bar> \<le> 2 ^ 52" unfolding lo_def by (rule top_bounded)
    have "top ! 0 \<in> set top" using ne by (intro nth_mem) simp
    then have bhi: "\<bar>hi\<bar> \<le> 2 ^ 52" unfolding hi_def by (rule top_bounded)
    have l: "lo \<le> word_count w" unfolding lo_def using top_sorted w by (rule sorted_last_min)
    have u: "word_count w \<le> hi" unfolding hi_def using top_sorted w by (rule sorted_first_max)
    show "\<exists>f. fontSize p = Finite (real_of_int f) \<and>
                     min minFontSize maxFontSize \<le> f \<and> f \<le> max minFontSize maxFontSize"
      unfolding p pw_def using l u blo bhi assms(5,6) by (rule process_word_fontSize)
  qed
  have heap1: "length h \<le> length h'" by (simp add: h'_def)
  have heap2: "\<forall>b < length h. h' ! b = h ! b" by (simp add: h'_def nth_append)
  have trunc': "map WordCloudWord.truncate ps
       = take (nat \<lfloor>maxWords\<rfloor>) (sort_key (\<lambda>w. - word_count w) (h ! a))"
    using trunc by (simp add: top_def srt_key k_def)
  have rest: "\<exists>rest. mset (map WordCloudWord.truncate ps @ rest) = mset (h ! a) \<and>
        sorted_wrt (\<lambda>x y. word_count y \<le> word_count x)
          (map WordCloudWord.truncate ps @ rest)"
    unfolding trunc using perm by (rule exI)
  show ?thesis
    by (rule exI [of _ ps], rule exI [of _ h'], intro conjI)
       (fact eval len trunc' ps_sorted rest fonts heap1 heap2)+
qed


lemma fl_dyadic:
  assumes "x = real_of_int m * 2 powi j" "\<bar>m\<bar> < 2 ^ 53" "- 1074 \<le> j" "\<bar>x\<bar> \<le> 2 ^ 53"
  shows "fl x = Finite x"
proof -
  have r: "round_to_double x = x" using assms(1,2,3) by (rule rnd_dyadic_exact)
  have "fl x = Finite (round_to_double x)" by (rule fl_bounded) (simp only: r assms(4))
  then show ?thesis by (simp only: r)
qed

lemma fl_eval_down:
  assumes "2 powi e \<le> \<bar>x\<bar>" "\<bar>x\<bar> < 2 powi (e + 1)" "- 1022 \<le> e"
    and "real_of_int m \<le> x / 2 powi (e - 52)" "x / 2 powi (e - 52) < real_of_int m + 1 / 2"
    and "r = real_of_int m * 2 powi (e - 52)" "\<bar>r\<bar> \<le> 2 ^ 53"
  shows "fl x = Finite r"
proof -
  have "round_to_double x
          = real_of_int (round_half_even (x / 2 powi (e - 52))) * 2 powi (e - 52)"
    using assms(1,2,3) by (rule rnd_eval)
  also have "round_half_even (x / 2 powi (e - 52)) = m" using assms(4,5) by (rule rhe_down)
  finally have r: "round_to_double x = r" by (simp only: assms(6))
  have "fl x = Finite (round_to_double x)" by (rule fl_bounded) (simp only: r assms(7))
  then show ?thesis by (simp only: r)
qed

lemma fl_examples:
  "fl 0 = Finite 0" "fl 12 = Finite 12" "fl 24 = Finite 24" "fl 8 = Finite 8"
  "fl 39 = Finite 39" "fl 47 = Finite 47" "fl 1 = Finite 1"
  "fl 15 = Finite 15" "fl 26 = Finite 26"
  using fl_int [of 0] fl_int [of 12] fl_int [of 24] fl_int [of 8] fl_int [of 39] fl_int [of 47]
    fl_int [of 1] fl_int [of 15] fl_int [of 26]
  by simp_all

lemma fl_quarters: "fl (95 / 4) = Finite (95 / 4)" "fl (49 / 4) = Finite (49 / 4)"
proof -
  have "(95::real) / 4 = real_of_int 95 * 2 powi (- 2)" by simp
  then show "fl (95 / 4) = Finite (95 / 4)" by (rule fl_dyadic) simp_all
  have "(49::real) / 4 = real_of_int 49 * 2 powi (- 2)" by simp
  then show "fl (49 / 4) = Finite (49 / 4)" by (rule fl_dyadic) simp_all
qed

text \<open>Without the guard, equal counts give the font size NaN.\<close>

lemma process_word_unguarded_range:
  assumes "word_count w = 5"
  shows "fontSize (process_word (Finite 5) (js_minus (Finite 5) (Finite 5)) (Finite 12) (Finite 36)
           colors (i, w)) = NaN"
  using assms
  by (simp add: process_word_def Let_def count_number_def js_minus_def fl_examples)

lemma fontSize_eval:
  assumes "js_minus (count_number w) lo = Finite n" "js_divide (Finite n) r = Finite t"
    and "js_minus b a = Finite d" "js_times (Finite t) (Finite d) = Finite p"
    and "js_plus a (Finite p) = Finite s" "\<lfloor>s + 1 / 2\<rfloor> = f"
  shows "fontSize (process_word lo r a b colors (i, w)) = Finite (real_of_int f)"
  using assms by (simp add: process_word_def Let_def)

lemma sort_equal_counts:
  "sort_cmp by_count_desc equal_counts_example = equal_counts_example"
proof -
  have "\<forall>w \<in> set equal_counts_example. \<bar>word_count w\<bar> \<le> 2 ^ 52"
    by (simp add: equal_counts_example_def)
  then have "sort_cmp by_count_desc equal_counts_example
               = sort_key (\<lambda>w. - word_count w) equal_counts_example"
    by (rule sort_cmp_sort_key)
  also have "\<dots> = equal_counts_example" by (simp add: equal_counts_example_def)
  finally show ?thesis .
qed

lemma equal_counts_fractional_minFontSize:
  assumes "word_count w = 5"
  shows "fontSize (process_word (Finite 5) (Finite 1) (Finite (49 / 4)) (Finite 36) colors (i, w))
           = Finite 12"
proof -
  have "fontSize (process_word (Finite 5) (Finite 1) (Finite (49 / 4)) (Finite 36) colors (i, w))
          = Finite (real_of_int 12)"
  proof (rule fontSize_eval)
    show "js_minus (count_number w) (Finite 5) = Finite 0"
      using assms by (simp add: count_number_def js_minus_def fl_examples)
    show "js_divide (Finite 0) (Finite 1) = Finite 0" by (simp add: fl_examples)
    show "js_minus (Finite 36) (Finite (49 / 4)) = Finite (95 / 4)"
      by (simp add: js_minus_def fl_quarters)
    show "js_times (Finite 0) (Finite (95 / 4)) = Finite 0" by (simp add: fl_examples)
    show "js_plus (Finite (49 / 4)) (Finite 0) = Finite (49 / 4)" by (simp add: fl_quarters)
    show "\<lfloor>(49::real) / 4 + 1 / 2\<rfloor> = 12" by simp
  qed
  then show ?thesis by simp
qed

lemma equal_counts_default_sizes:
  assumes "word_count w = 5"
  shows "fontSize (process_word (Finite 5) (Finite 1) (Finite 12) (Finite 36) colors (i, w))
           = Finite 12"
proof -
  have "fontSize (process_word (Finite 5) (Finite 1) (Finite 12) (Finite 36) colors (i, w))
          = Finite (real_of_int 12)"
  proof (rule fontSize_eval)
    show "js_minus (count_number w) (Finite 5) = Finite 0"
      using assms by (simp add: count_number_def js_minus_def fl_examples)
    show "js_divide (Finite 0) (Finite 1) = Finite 0" by (simp add: fl_examples)
    show "js_minus (Finite 36) (Finite 12) = Finite 24"
      by (simp add: js_minus_def fl_examples)
    show "js_times (Finite 0) (Finite 24) = Finite 0" by (simp add: fl_examples)
    show "js_plus (Finite 12) (Finite 0) = Finite 12" by (simp add: fl_examples)
    show "\<lfloor>(12::real) + 1 / 2\<rfloor> = 12" by simp
  qed
  then show ?thesis by simp
qed

lemma processedWords_fields:
  assumes "a < length h" "h ! a \<noteq> []"
    and "take (slice_final maxWords (length (h ! a))) (sort_cmp by_count_desc (h ! a)) = taken"
    and "taken \<noteq> []"
    and "count_number (last taken) = lo" "count_number (hd taken) = hi"
    and "js_or (js_minus hi lo) (Finite 1) = r"
  shows "map fontSize (fst (processedWords (Some a) maxWords minFontSize maxFontSize colors h))
           = map (\<lambda>w. fontSize (process_word lo r minFontSize maxFontSize colors (0, w))) taken"
    and "map word (fst (processedWords (Some a) maxWords minFontSize maxFontSize colors h))
           = map word taken"
proof -
  have l: "taken ! (length taken - 1) = last taken" using assms(4) by (simp add: last_conv_nth)
  have f: "taken ! 0 = hd taken" using assms(4) by (simp add: hd_conv_nth)
  have eval: "fst (processedWords (Some a) maxWords minFontSize maxFontSize colors h)
                = map (process_word lo r minFontSize maxFontSize colors) (zip [0..<length taken] taken)"
    unfolding processedWords_eval [OF assms(1,2)] Let_def assms(3) l f assms(5,6,7)
    using assms(4) by simp
  have "map (fontSize \<circ> process_word lo r minFontSize maxFontSize colors) (zip [0..<length taken] taken)
          = map (\<lambda>w. fontSize (process_word lo r minFontSize maxFontSize colors (0, w))) taken"
    by (rule map_zip_index) (simp add: process_word_def Let_def)
  then show "map fontSize (fst (processedWords (Some a) maxWords minFontSize maxFontSize colors h))
           = map (\<lambda>w. fontSize (process_word lo r minFontSize maxFontSize colors (0, w))) taken"
    by (simp add: eval)
  have "map (word \<circ> process_word lo r minFontSize maxFontSize colors) (zip [0..<length taken] taken)
          = map word taken"
    by (rule map_zip_index) (simp add: process_word_def Let_def)
  then show "map word (fst (processedWords (Some a) maxWords minFontSize maxFontSize colors h))
           = map word taken"
    by (simp add: eval)
qed

lemma equal_counts_range: "js_or (js_minus (Finite 5) (Finite 5)) (Finite 1) = Finite 1"
  by (simp add: js_minus_def js_or_def fl_examples)

lemma processedWords_equal_counts:
  "map fontSize (fst (processedWords (Some 0) (Finite 50) (Finite (49 / 4)) (Finite 36)
                   default_colors [equal_counts_example])) = [Finite 12, Finite 12]"
  "map fontSize (fst (processedWords (Some 0) (Finite 50) (Finite 12) (Finite 36)
                   default_colors [equal_counts_example])) = [Finite 12, Finite 12]"
  "map word (fst (processedWords (Some 0) (Finite (- 1)) (Finite 12) (Finite 36)
                   default_colors [equal_counts_example])) = [''safety'']"
proof -
  define taken where "taken = equal_counts_example"
  define taken1 where "taken1 = [\<lparr>word = ''safety'', word_count = 5, word_size = None\<rparr>]"
  have a: "(0::nat) < length [equal_counts_example]" by simp
  have b: "[equal_counts_example] ! 0 \<noteq> []" by (simp add: equal_counts_example_def)
  have c: "[equal_counts_example] ! 0 = equal_counts_example" by simp
  have s50: "slice_final (Finite 50) (length equal_counts_example) = 2"
    by (simp add: slice_final_def equal_counts_example_def)
  have t: "take (slice_final (Finite 50) (length ([equal_counts_example] ! 0)))
                  (sort_cmp by_count_desc ([equal_counts_example] ! 0)) = taken"
    unfolding c sort_equal_counts s50 taken_def by (simp add: equal_counts_example_def)
  have "\<lceil>- 1 :: real\<rceil> = - 1" by (rule ceiling_unique) simp_all
  then have s1: "slice_final (Finite (- 1)) (length equal_counts_example) = 1"
    by (simp add: slice_final_def equal_counts_example_def)
  have t1: "take (slice_final (Finite (- 1)) (length ([equal_counts_example] ! 0)))
                  (sort_cmp by_count_desc ([equal_counts_example] ! 0)) = taken1"
    unfolding c sort_equal_counts s1 taken1_def by (simp add: equal_counts_example_def)
  have n: "taken \<noteq> []" "count_number (last taken) = Finite 5" "count_number (hd taken) = Finite 5"
    by (simp_all add: taken_def equal_counts_example_def count_number_def)
  have n1: "taken1 \<noteq> []" "count_number (last taken1) = Finite 5" "count_number (hd taken1) = Finite 5"
    by (simp_all add: taken1_def count_number_def)
  show "map fontSize (fst (processedWords (Some 0) (Finite 50) (Finite (49 / 4)) (Finite 36)
                   default_colors [equal_counts_example])) = [Finite 12, Finite 12]"
    unfolding processedWords_fields(1) [OF a b t n equal_counts_range]
    by (simp add: taken_def equal_counts_example_def equal_counts_fractional_minFontSize)
  show "map fontSize (fst (processedWords (Some 0) (Finite 50) (Finite 12) (Finite 36)
                   default_colors [equal_counts_example])) = [Finite 12, Finite 12]"
    unfolding processedWords_fields(1) [OF a b t n equal_counts_range]
    by (simp add: taken_def equal_counts_example_def equal_counts_default_sizes)
  show "map word (fst (processedWords (Some 0) (Finite (- 1)) (Finite 12) (Finite 36)
                   default_colors [equal_counts_example])) = [''safety'']"
    unfolding processedWords_fields(2) [OF a b t1 n1 equal_counts_range]
    by (simp add: taken1_def)
qed


lemma sort_words_example:
  "sort_cmp by_count_desc words_example =
     [\<lparr>word = ''parents'', word_count = 27, word_size = None\<rparr>,
      \<lparr>word = ''privacy'', word_count = 16, word_size = None\<rparr>,
      \<lparr>word = ''entry'', word_count = 16, word_size = None\<rparr>,
      \<lparr>word = ''trust'', word_count = 1, word_size = None\<rparr>,
      \<lparr>word = ''late'', word_count = 0, word_size = None\<rparr>]"
proof -
  have "\<forall>w \<in> set words_example. \<bar>word_count w\<bar> \<le> 2 ^ 52"
    by (simp add: words_example_def)
  then have "sort_cmp by_count_desc words_example
               = sort_key (\<lambda>w. - word_count w) words_example"
    by (rule sort_cmp_sort_key)
  also have "\<dots> =
     [\<lparr>word = ''parents'', word_count = 27, word_size = None\<rparr>,
      \<lparr>word = ''privacy'', word_count = 16, word_size = None\<rparr>,
      \<lparr>word = ''entry'', word_count = 16, word_size = None\<rparr>,
      \<lparr>word = ''trust'', word_count = 1, word_size = None\<rparr>,
      \<lparr>word = ''late'', word_count = 0, word_size = None\<rparr>]"
    by (simp add: words_example_def)
  finally show ?thesis .
qed

lemma words_example_range: "js_or (js_minus (Finite 27) (Finite 1)) (Finite 1) = Finite 26"
  by (simp add: js_minus_def js_or_def fl_examples)

lemma words_example_largest:
  assumes "word_count w = 27"
  shows "fontSize (process_word (Finite 1) (Finite 26) (Finite 8) (Finite 47) colors (i, w))
           = Finite 47"
proof -
  have "fontSize (process_word (Finite 1) (Finite 26) (Finite 8) (Finite 47) colors (i, w))
          = Finite (real_of_int 47)"
  proof (rule fontSize_eval)
    show "js_minus (count_number w) (Finite 1) = Finite 26"
      using assms by (simp add: count_number_def js_minus_def fl_examples)
    show "js_divide (Finite 26) (Finite 26) = Finite 1" by (simp add: fl_examples)
    show "js_minus (Finite 47) (Finite 8) = Finite 39"
      by (simp add: js_minus_def fl_examples)
    show "js_times (Finite 1) (Finite 39) = Finite 39" by (simp add: fl_examples)
    show "js_plus (Finite 8) (Finite 39) = Finite 47" by (simp add: fl_examples)
    show "\<lfloor>(47::real) + 1 / 2\<rfloor> = 47" by simp
  qed
  then show ?thesis by simp
qed

lemma words_example_smallest:
  assumes "word_count w = 1"
  shows "fontSize (process_word (Finite 1) (Finite 26) (Finite 8) (Finite 47) colors (i, w))
           = Finite 8"
proof -
  have "fontSize (process_word (Finite 1) (Finite 26) (Finite 8) (Finite 47) colors (i, w))
          = Finite (real_of_int 8)"
  proof (rule fontSize_eval)
    show "js_minus (count_number w) (Finite 1) = Finite 0"
      using assms by (simp add: count_number_def js_minus_def fl_examples)
    show "js_divide (Finite 0) (Finite 26) = Finite 0" by (simp add: fl_examples)
    show "js_minus (Finite 47) (Finite 8) = Finite 39"
      by (simp add: js_minus_def fl_examples)
    show "js_times (Finite 0) (Finite 39) = Finite 0" by (simp add: fl_examples)
    show "js_plus (Finite 8) (Finite 0) = Finite 8" by (simp add: fl_examples)
    show "\<lfloor>(8::real) + 1 / 2\<rfloor> = 8" by simp
  qed
  then show ?thesis by simp
qed

text \<open>
  The count 16 between the counts 1 and 27, with the font sizes 8 and 47: the exact value
  8 + 15 / 26 * 39 is 30.5, which would round to 31; the doubles give 30.499999999999996 and
  the font size 30.
\<close>

lemma words_example_middle:
  assumes "word_count w = 16"
  shows "fontSize (process_word (Finite 1) (Finite 26) (Finite 8) (Finite 47) colors (i, w))
           = Finite 30"
proof -
  define q :: real where "q = real_of_int 5196461108504418 * 2 powi (- 1 - 52)"
  define p :: real where "p = real_of_int 6333186975989759 * 2 powi (4 - 52)"
  define s :: real where "s = real_of_int 8584986789675007 * 2 powi (4 - 52)"
  have fq: "fl (15 / 26) = Finite q"
  proof (rule fl_eval_down)
    show "2 powi (- 1) \<le> \<bar>(15::real) / 26\<bar>" by simp
    show "\<bar>(15::real) / 26\<bar> < 2 powi (- 1 + 1)" by simp
    show "- 1022 \<le> (- 1::int)" by simp
    show "real_of_int 5196461108504418 \<le> 15 / 26 / 2 powi (- 1 - 52)" by simp
    show "15 / 26 / 2 powi (- 1 - 52) < real_of_int 5196461108504418 + 1 / 2" by simp
    show "q = real_of_int 5196461108504418 * 2 powi (- 1 - 52)" by (rule q_def)
    show "\<bar>q\<bar> \<le> 2 ^ 53" by (simp add: q_def)
  qed
  have fp: "fl (q * 39) = Finite p"
  proof (rule fl_eval_down)
    show "2 powi 4 \<le> \<bar>q * 39\<bar>" by (simp add: q_def)
    show "\<bar>q * 39\<bar> < 2 powi (4 + 1)" by (simp add: q_def)
    show "- 1022 \<le> (4::int)" by simp
    show "real_of_int 6333186975989759 \<le> q * 39 / 2 powi (4 - 52)" by (simp add: q_def)
    show "q * 39 / 2 powi (4 - 52) < real_of_int 6333186975989759 + 1 / 2" by (simp add: q_def)
    show "p = real_of_int 6333186975989759 * 2 powi (4 - 52)" by (rule p_def)
    show "\<bar>p\<bar> \<le> 2 ^ 53" by (simp add: p_def)
  qed
  have fs: "fl (8 + p) = Finite s"
  proof (rule fl_eval_down)
    show "2 powi 4 \<le> \<bar>8 + p\<bar>" by (simp add: p_def)
    show "\<bar>8 + p\<bar> < 2 powi (4 + 1)" by (simp add: p_def)
    show "- 1022 \<le> (4::int)" by simp
    show "real_of_int 8584986789675007 \<le> (8 + p) / 2 powi (4 - 52)" by (simp add: p_def)
    show "(8 + p) / 2 powi (4 - 52) < real_of_int 8584986789675007 + 1 / 2" by (simp add: p_def)
    show "s = real_of_int 8584986789675007 * 2 powi (4 - 52)" by (rule s_def)
    show "\<bar>s\<bar> \<le> 2 ^ 53" by (simp add: s_def)
  qed
  have "fontSize (process_word (Finite 1) (Finite 26) (Finite 8) (Finite 47) colors (i, w))
          = Finite (real_of_int 30)"
  proof (rule fontSize_eval)
    show "js_minus (count_number w) (Finite 1) = Finite 15"
      using assms by (simp add: count_number_def js_minus_def fl_examples)
    show "js_divide (Finite 15) (Finite 26) = Finite q" using fq by simp
    show "js_minus (Finite 47) (Finite 8) = Finite 39"
      by (simp add: js_minus_def fl_examples)
    show "js_times (Finite q) (Finite 39) = Finite p" using fp by simp
    show "js_plus (Finite 8) (Finite p) = Finite s" using fs by simp
    show "\<lfloor>s + 1 / 2\<rfloor> = 30" by (simp add: s_def)
  qed
  then show ?thesis by simp
qed

lemma processedWords_words_example:
  "map fontSize (fst (processedWords (Some 0) (Finite 4) (Finite 8) (Finite 47)
                   default_colors [words_example]))
     = [Finite 47, Finite 30, Finite 30, Finite 8]"
  "map word (fst (processedWords (Some 0) (Finite 4) (Finite 8) (Finite 47)
                   default_colors [words_example]))
     = [''parents'', ''privacy'', ''entry'', ''trust'']"
proof -
  define taken where "taken =
     [\<lparr>word = ''parents'', word_count = 27, word_size = None\<rparr>,
      \<lparr>word = ''privacy'', word_count = 16, word_size = None\<rparr>,
      \<lparr>word = ''entry'', word_count = 16, word_size = None\<rparr>,
      \<lparr>word = ''trust'', word_count = 1, word_size = None\<rparr>]"
  have a: "(0::nat) < length [words_example]" by simp
  have b: "[words_example] ! 0 \<noteq> []" by (simp add: words_example_def)
  have c: "[words_example] ! 0 = words_example" by simp
  have s4: "slice_final (Finite 4) (length words_example) = 4"
    by (simp add: slice_final_def words_example_def)
  have t: "take (slice_final (Finite 4) (length ([words_example] ! 0)))
                  (sort_cmp by_count_desc ([words_example] ! 0)) = taken"
    unfolding c sort_words_example s4 taken_def by simp
  have n: "taken \<noteq> []" "count_number (last taken) = Finite 1"
    "count_number (hd taken) = Finite 27"
    by (simp_all add: taken_def count_number_def)
  show "map fontSize (fst (processedWords (Some 0) (Finite 4) (Finite 8) (Finite 47)
                   default_colors [words_example]))
     = [Finite 47, Finite 30, Finite 30, Finite 8]"
    unfolding processedWords_fields(1) [OF a b t n words_example_range]
    by (simp add: taken_def words_example_largest words_example_middle words_example_smallest)
  show "map word (fst (processedWords (Some 0) (Finite 4) (Finite 8) (Finite 47)
                   default_colors [words_example]))
     = [''parents'', ''privacy'', ''entry'', ''trust'']"
    unfolding processedWords_fields(2) [OF a b t n words_example_range]
    by (simp add: taken_def)
qed


text \<open>
  C9 (as stated, refuted). With minFontSize = 12.25 and the default maxFontSize 36, two
  words of equal count both get the fontSize 12, which is below minFontSize: the computed
  font size is rounded to a whole number, the two properties are not. And with
  maxWords = -1 the same list gives one entry, which is more than maxWords: a negative
  end of a slice counts back from the length of the array.
\<close>

theorem processedWords_fontSize_below_minFontSize:
  "map fontSize (fst (processedWords (Some 0) (Finite 50) (Finite (49 / 4)) (Finite 36)
                   default_colors [equal_counts_example])) = [Finite 12, Finite 12] \<and>
   (12::real) < 49 / 4 \<and>
   map word (fst (processedWords (Some 0) (Finite (- 1)) (Finite 12) (Finite 36)
                   default_colors [equal_counts_example])) = [''safety''] \<and>
   (- 1::real) < real (length [''safety''])"
  using processedWords_equal_counts(1,3) by simp

theorem processedWords_top_words_witness:
  "(0::nat) < length [words_example] \<and>
   map fontSize (fst (processedWords (Some 0) (Finite 4) (Finite 8) (Finite 47)
                   default_colors [words_example]))
     = [Finite 47, Finite 30, Finite 30, Finite 8] \<and>
   map word (fst (processedWords (Some 0) (Finite 4) (Finite 8) (Finite 47)
                   default_colors [words_example]))
     = [''parents'', ''privacy'', ''entry'', ''trust''] \<and>
   snd (processedWords (Some 0) (Finite 4) (Finite 8) (Finite 47)
          default_colors [words_example]) ! 0 = words_example \<and>
   map fontSize (fst (processedWords (Some 0) (Finite 50) (Finite 12) (Finite 36)
                   default_colors [equal_counts_example])) = [Finite 12, Finite 12]"
proof -
  have a: "(0::nat) < length [words_example]" by simp
  have b: "[words_example] ! 0 \<noteq> []" by (simp add: words_example_def)
  have c: "\<forall>w \<in> set ([words_example] ! 0). \<bar>word_count w\<bar> \<le> 2 ^ 52"
    by (simp add: words_example_def)
  have d: "(0::real) \<le> 4" "\<bar>8::int\<bar> \<le> 2 ^ 52" "\<bar>47::int\<bar> \<le> 2 ^ 52" by simp_all
  from processedWords_top_words [OF a b c d, of default_colors]
  obtain ps h' where
    "processedWords (Some 0) (Finite 4) (Finite (real_of_int 8)) (Finite (real_of_int 47))
       default_colors [words_example] = (ps, h')"
    "\<forall>b < length [words_example]. h' ! b = [words_example] ! b"
    by blast
  then have heap: "snd (processedWords (Some 0) (Finite 4) (Finite 8) (Finite 47)
          default_colors [words_example]) ! 0 = words_example"
    by simp
  from a processedWords_words_example heap processedWords_equal_counts(2)
  show ?thesis by (intro conjI)
qed

lemma topWords_eval:
  assumes "a < length h"
  shows "topWords a maxWords h =
           (take (slice_final maxWords (length (h ! a))) (sort_cmp by_count_desc (h ! a)),
            h @ [sort_cmp by_count_desc (h ! a),
                 take (slice_final maxWords (length (h ! a))) (sort_cmp by_count_desc (h ! a))])"
  using assms
  by (simp add: topWords_def spread_copy_def alloc_def sort_in_place_def slice_from_0_def
        nth_append length_sort_cmp)

lemma topWords_top_words:
  assumes "a < length h" "\<forall>w \<in> set (h ! a). \<bar>word_count w\<bar> \<le> 2 ^ 52" "0 \<le> maxWords"
  shows "\<exists>ts h'. topWords a (Finite maxWords) h = (ts, h') \<and>
           ts = take (nat \<lfloor>maxWords\<rfloor>) (sort_key (\<lambda>w. - word_count w) (h ! a)) \<and>
           (\<forall>b < length h. h' ! b = h ! b)"
proof -
  define srt where "srt = sort_cmp by_count_desc (h ! a)"
  have len_srt: "length srt = length (h ! a)" unfolding srt_def by (rule length_sort_cmp)
  have "slice_final (Finite maxWords) (length (h ! a)) = min (nat \<lfloor>maxWords\<rfloor>) (length (h ! a))"
    using assms(3) by (rule slice_final_nonneg)
  then have sl: "take (slice_final (Finite maxWords) (length (h ! a))) srt
                   = take (nat \<lfloor>maxWords\<rfloor>) srt"
    using len_srt by (simp only: take_min_length)
  have srt_key: "srt = sort_key (\<lambda>w. - word_count w) (h ! a)"
    unfolding srt_def using assms(2) by (rule sort_cmp_sort_key)
  have "topWords a (Finite maxWords) h
          = (take (nat \<lfloor>maxWords\<rfloor>) srt, h @ [srt, take (nat \<lfloor>maxWords\<rfloor>) srt])"
    unfolding topWords_eval [OF assms(1)] srt_def [symmetric] sl by (rule refl)
  then show ?thesis by (simp add: srt_key nth_append)
qed

subsection \<open>Statistics engine\<close>

lemma proportion_total: "\<exists>p. proportion c t = Inr p"
  by (simp add: proportion_def checked_div_def)

lemma proportion_value: "proportion c t = Inr (if t = 0 then 0 else real c / real t)"
  by (simp add: proportion_def checked_div_def)

lemma standard_error_value:
  "standard_error p ta tb =
     Inr (if ta = 0 \<or> tb = 0 then 0 else sqrt (p * (1 - p) * (1 / real ta + 1 / real tb)))"
  by (simp add: standard_error_def checked_div_def and_then_def)

lemma standard_error_commute: "standard_error p ta tb = standard_error p tb ta"
  by (auto simp: standard_error_value add.commute)

lemma percentage_with_ci_zero_total:
  "percentage_with_ci c 0 =
     Inr \<lparr>percentage = 0, margin_of_error = 100, ci_lower = 0, ci_upper = 100,
          sample_size = 0, confidence_level = 0.95\<rparr>"
  by (simp add: percentage_with_ci_def clamp_percent_def)

lemma percentage_with_ci_total: "\<exists>r. percentage_with_ci c t = Inr r"
  by (simp add: percentage_with_ci_def checked_div_def and_then_def Let_def)

lemma two_proportion_z_test_value:
  "two_proportion_z_test normal_cdf ca ta cb tb =
     (let p_a = (if ta = 0 then 0 else real ca / real ta);
          p_b = (if tb = 0 then 0 else real cb / real tb);
          p = (if ta + tb = 0 then 0 else real (ca + cb) / real (ta + tb));
          se = (if ta = 0 \<or> tb = 0 then 0
                else sqrt (p * (1 - p) * (1 / real ta + 1 / real tb)));
          z = (if se = 0 then 0 else (p_a - p_b) / se);
          pv = 2 * (1 - normal_cdf \<bar>z\<bar>);
          h = 2 * (arcsin (sqrt p_a) - arcsin (sqrt p_b))
      in Inr \<lparr>z_statistic = z, test_p_value = pv,
               significant = (se \<noteq> 0 \<and> pv < 0.05),
               highly_significant = (se \<noteq> 0 \<and> pv < 0.01),
               difference = 100 * (p_a - p_b),
               effect_size = effect_size_of h,
               cohens_h = h\<rparr>)"
  unfolding two_proportion_z_test_def proportion_value standard_error_value
  by (simp add: and_then_def checked_div_def Let_def)


lemma and_then_Inr: "and_then (Inr x) f = f x"
  by (simp add: and_then_def)

lemma expected_count_value:
  "n \<noteq> 0 \<Longrightarrow> expected_count row col n = Inr (real row * real col / real n)"
  by (simp add: expected_count_def checked_div_def)

lemma cell_term_value:
  "e \<noteq> 0 \<Longrightarrow> cell_term ob e c = Inr ((\<bar>real ob - e\<bar> - c)\<^sup>2 / e)"
  by (simp add: cell_term_def checked_div_def)

lemma chi_square_2x2_total: "\<exists>r. chi_square_2x2 chi2_sf yy yn ny nn = Inr r"
proof (cases "yy + yn = 0 \<or> ny + nn = 0 \<or> yy + ny = 0 \<or> yn + nn = 0")
  case True
  then show ?thesis by (simp add: chi_square_2x2_def Let_def)
next
  case False
  define row1 row2 col1 col2 where "row1 = yy + yn" and "row2 = ny + nn"
    and "col1 = yy + ny" and "col2 = yn + nn"
  have nz: "row1 \<noteq> 0" "row2 \<noteq> 0" "col1 \<noteq> 0" "col2 \<noteq> 0"
    using False by (simp_all add: row1_def row2_def col1_def col2_def)
  then have n: "row1 + row2 \<noteq> 0" by simp
  have e: "real row1 * real col1 / real (row1 + row2) \<noteq> 0"
          "real row1 * real col2 / real (row1 + row2) \<noteq> 0"
          "real row2 * real col1 / real (row1 + row2) \<noteq> 0"
          "real row2 * real col2 / real (row1 + row2) \<noteq> 0"
    using nz by simp_all
  have s: "sqrt (real row1 * real row2 * real col1 * real col2) \<noteq> 0"
    using nz by simp
  have "\<exists>r. chi_square_2x2 chi2_sf yy yn ny nn = Inr r"
    unfolding chi_square_2x2_def Let_def
    unfolding row1_def [symmetric] row2_def [symmetric] col1_def [symmetric] col2_def [symmetric]
    using nz s
    by (simp only: expected_count_value [OF n] and_then_Inr cell_term_value [OF e(1)]
          cell_term_value [OF e(2)] cell_term_value [OF e(3)] cell_term_value [OF e(4)]
          checked_div_def if_False simp_thms)
       (rule exI, rule refl)
  then show ?thesis .
qed

lemma chi_square_2x2_zero_marginal:
  "yy + yn = 0 \<or> ny + nn = 0 \<or> yy + ny = 0 \<or> yn + nn = 0 \<Longrightarrow>
   chi_square_2x2 chi2_sf yy yn ny nn =
     Inr \<lparr>cs_chi_square = 0, cs_p_value = 1, cs_correlation_coefficient = 0\<rparr>"
  by (simp add: chi_square_2x2_def Let_def)

text \<open>
  C5. For all inputs, swapping the two groups of two_proportion_z_test negates the
  difference and leaves the magnitude of the z statistic and the p-value unchanged (and
  both calls return a result).
\<close>

theorem two_proportion_z_test_antisymmetric:
  "\<exists>r r'.
     two_proportion_z_test normal_cdf count_a total_a count_b total_b = Inr r \<and>
     two_proportion_z_test normal_cdf count_b total_b count_a total_a = Inr r' \<and>
     difference r' = - difference r \<and>
     \<bar>z_statistic r'\<bar> = \<bar>z_statistic r\<bar> \<and>
     test_p_value r' = test_p_value r"
proof -
  define p_a where "p_a = (if total_a = 0 then 0 else real count_a / real total_a)"
  define p_b where "p_b = (if total_b = 0 then 0 else real count_b / real total_b)"
  define p where "p = (if total_a + total_b = 0 then 0
                       else real (count_a + count_b) / real (total_a + total_b))"
  define se where "se = (if total_a = 0 \<or> total_b = 0 then 0
                else sqrt (p * (1 - p) * (1 / real total_a + 1 / real total_b)))"
  define z where "z = (if se = 0 then 0 else (p_a - p_b) / se)"
  define z' where "z' = (if se = 0 then 0 else (p_b - p_a) / se)"
  have p': "(if total_b + total_a = 0 then 0
             else real (count_b + count_a) / real (total_b + total_a)) = p"
    by (simp add: p_def add.commute)
  have se': "(if total_b = 0 \<or> total_a = 0 then 0
                else sqrt (p * (1 - p) * (1 / real total_b + 1 / real total_a))) = se"
    by (auto simp: se_def add.commute)
  have zz: "z' = - z" by (simp add: z_def z'_def minus_divide_left)
  have r: "two_proportion_z_test normal_cdf count_a total_a count_b total_b =
     Inr \<lparr>z_statistic = z, test_p_value = 2 * (1 - normal_cdf \<bar>z\<bar>),
          significant = (se \<noteq> 0 \<and> 2 * (1 - normal_cdf \<bar>z\<bar>) < 0.05),
          highly_significant = (se \<noteq> 0 \<and> 2 * (1 - normal_cdf \<bar>z\<bar>) < 0.01),
          difference = 100 * (p_a - p_b),
          effect_size = effect_size_of (2 * (arcsin (sqrt p_a) - arcsin (sqrt p_b))),
          cohens_h = 2 * (arcsin (sqrt p_a) - arcsin (sqrt p_b))\<rparr>"
    unfolding two_proportion_z_test_value Let_def
    unfolding p_a_def [symmetric] p_b_def [symmetric] p_def [symmetric]
    unfolding se_def [symmetric]
    unfolding z_def [symmetric]
    by (rule refl)
  have r': "two_proportion_z_test normal_cdf count_b total_b count_a total_a =
     Inr \<lparr>z_statistic = z', test_p_value = 2 * (1 - normal_cdf \<bar>z'\<bar>),
          significant = (se \<noteq> 0 \<and> 2 * (1 - normal_cdf \<bar>z'\<bar>) < 0.05),
          highly_significant = (se \<noteq> 0 \<and> 2 * (1 - normal_cdf \<bar>z'\<bar>) < 0.01),
          difference = 100 * (p_b - p_a),
          effect_size = effect_size_of (2 * (arcsin (sqrt p_b) - arcsin (sqrt p_a))),
          cohens_h = 2 * (arcsin (sqrt p_b) - arcsin (sqrt p_a))\<rparr>"
    unfolding two_proportion_z_test_value Let_def
    unfolding p_a_def [symmetric] p_b_def [symmetric] p'
    unfolding se'
    unfolding z'_def [symmetric]
    by (rule refl)
  show ?thesis
    unfolding r r' by (simp add: zz)
qed


lemma sample_adequacy_zero:
  "sample_adequacy 0 population_estimate =
     Inr \<lparr>adequacy = weak, worst_case_moe_percent = 100, can_detect_difference = 100\<rparr>"
  by (simp add: sample_adequacy_def adequacy_of_def)

lemma sample_adequacy_total: "\<exists>r. sample_adequacy n population_estimate = Inr r"
  by (simp add: sample_adequacy_def checked_div_def and_then_def Let_def)

lemma significance_badge_total: "\<exists>b. significance_badge pv flagged = Inr b"
  by (simp add: significance_badge_def)

text \<open>
  C3. percentage_with_ci(0, 0) returns the percentage 0 and the margin of error 100 without
  raising, as it does for every count with a zero total; with a zero total in either group
  the z-test returns z = 0 and is not significant; the chi-square test of the all-zero
  table returns the statistic 0, the p-value 1 and the coefficient 0; a zero sample size gives
  sample_adequacy the margin of error 100 and the adequacy weak; and none of the five engine
  functions raises on any input.
\<close>

theorem engine_functions_total_on_zero_totals:
  "percentage_with_ci 0 0 =
     Inr \<lparr>percentage = 0, margin_of_error = 100, ci_lower = 0, ci_upper = 100,
          sample_size = 0, confidence_level = 0.95\<rparr> \<and>
   percentage_with_ci count_n 0 =
     Inr \<lparr>percentage = 0, margin_of_error = 100, ci_lower = 0, ci_upper = 100,
          sample_size = 0, confidence_level = 0.95\<rparr> \<and>
   (\<exists>r. two_proportion_z_test normal_cdf count_a 0 count_b total_b = Inr r \<and>
        z_statistic r = 0 \<and> \<not> significant r \<and> \<not> highly_significant r) \<and>
   (\<exists>r. two_proportion_z_test normal_cdf count_a total_a count_b 0 = Inr r \<and>
        z_statistic r = 0 \<and> \<not> significant r \<and> \<not> highly_significant r) \<and>
   chi_square_2x2 chi2_sf 0 0 0 0 =
     Inr \<lparr>cs_chi_square = 0, cs_p_value = 1, cs_correlation_coefficient = 0\<rparr> \<and>
   (\<exists>r. sample_adequacy 0 population_estimate = Inr r \<and>
        worst_case_moe_percent r = 100 \<and> adequacy r = weak) \<and>
   (\<exists>r. percentage_with_ci count_n total_n = Inr r) \<and>
   (\<exists>r. two_proportion_z_test normal_cdf count_a total_a count_b total_b = Inr r) \<and>
   (\<exists>r. chi_square_2x2 chi2_sf yy yn ny nn = Inr r) \<and>
   (\<exists>r. significance_badge pv flagged = Inr r) \<and>
   (\<exists>r. sample_adequacy sample_size_n population_estimate = Inr r)"
proof -
  have a: "\<exists>r. two_proportion_z_test normal_cdf count_a 0 count_b total_b = Inr r \<and>
        z_statistic r = 0 \<and> \<not> significant r \<and> \<not> highly_significant r"
    by (simp add: two_proportion_z_test_value Let_def)
  have b: "\<exists>r. two_proportion_z_test normal_cdf count_a total_a count_b 0 = Inr r \<and>
        z_statistic r = 0 \<and> \<not> significant r \<and> \<not> highly_significant r"
    by (simp add: two_proportion_z_test_value Let_def)
  have c: "chi_square_2x2 chi2_sf 0 0 0 0 =
     Inr \<lparr>cs_chi_square = 0, cs_p_value = 1, cs_correlation_coefficient = 0\<rparr>"
    by (simp add: chi_square_2x2_zero_marginal)
  have d: "\<exists>r. two_proportion_z_test normal_cdf count_a total_a count_b total_b = Inr r"
    by (simp add: two_proportion_z_test_value Let_def)
  have e: "\<exists>r. sample_adequacy 0 population_estimate = Inr r \<and>
        worst_case_moe_percent r = 100 \<and> adequacy r = weak"
    by (simp add: sample_adequacy_zero)
  show ?thesis
    by (intro conjI)
       (fact percentage_with_ci_zero_total a b c d e percentage_with_ci_total
             chi_square_2x2_total significance_badge_total sample_adequacy_total)+
qed

subsection \<open>Quality scorer\<close>

text \<open>
  C4. For every comment, the quality score lies between 0 and 100 inclusive.
\<close>

theorem QualityScorer_score_bounds:
  "0 \<le> qr_score (QualityScorer_score cfg keyboard_pattern c) \<and>
   qr_score (QualityScorer_score cfg keyboard_pattern c) \<le> 100"
  by (simp add: QualityScorer_score_def clamp_score_def Let_def)

lemma QualityScorer_score_examples:
  "qr_score (QualityScorer_score scorer_config_example (\<lambda>c. True) ''OK'') = 0 \<and>
   qr_flags (QualityScorer_score scorer_config_example (\<lambda>c. True) ''OK'')
     = [too_short, keyboard_spam, minimal] \<and>
   qr_score (QualityScorer_score scorer_config_example (\<lambda>c. False) ''   '') = 0 \<and>
   qr_flags (QualityScorer_score scorer_config_example (\<lambda>c. False) ''   '') = [empty_comment] \<and>
   qr_score (QualityScorer_score scorer_config_example (\<lambda>c. False)
      ''I am worried about privacy'') = 100"
  by (simp add: QualityScorer_score_def clamp_score_def Let_def detect_flags_def
        scorer_config_example_def is_space_def is_upper_def is_lower_def penalty_def
        hard_fail_def)

end
